theory Spec2Isabelle
  imports Main "HOL-Library.Sublist"
begin

section \<open>JavaScript string operations used by the sources\<close>

text \<open>
  Strings are lists of characters; a byte buffer is a list of characters too
  (an Isabelle character is one byte).
\<close>

type_synonym bytes = string

text \<open>\<^verbatim>\<open>s.split(c)\<close> for a separator of one character: the fields between the
  separators, empty fields included; the empty string gives one empty field.\<close>

fun split_chr :: "char \<Rightarrow> string \<Rightarrow> string list" where
  "split_chr c [] = [[]]"
| "split_chr c (x # xs) =
     (if x = c then [] # split_chr c xs
      else (case split_chr c xs of [] \<Rightarrow> [[x]] | y # ys \<Rightarrow> (x # y) # ys))"

text \<open>\<^verbatim>\<open>xs[0]\<close> inside a template literal: a missing element prints as
  \<^verbatim>\<open>undefined\<close>.\<close>

definition first_elem :: "string list \<Rightarrow> string" where
  "first_elem xs = (case xs of [] \<Rightarrow> ''undefined'' | x # _ \<Rightarrow> x)"

text \<open>\<^verbatim>\<open>s.replace(pat, rep)\<close> with a string pattern: only the first occurrence
  is replaced (the replacement used by the source holds no dollar sign).\<close>

fun replace_first :: "string \<Rightarrow> string \<Rightarrow> string \<Rightarrow> string" where
  "replace_first pat rep [] = (if pat = [] then rep else [])"
| "replace_first pat rep (x # xs) =
     (if prefix pat (x # xs) then rep @ drop (length pat) (x # xs)
      else x # replace_first pat rep xs)"

text \<open>\<^verbatim>\<open>s.includes(pat)\<close>.\<close>

fun includes_str :: "string \<Rightarrow> string \<Rightarrow> bool" where
  "includes_str pat [] = (pat = [])"
| "includes_str pat (x # xs) = (prefix pat (x # xs) \<or> includes_str pat xs)"

text \<open>\<^verbatim>\<open>s.lastIndexOf(c)\<close>: the index of the last occurrence, or -1.\<close>

fun lastIndexOf :: "char \<Rightarrow> string \<Rightarrow> int" where
  "lastIndexOf c [] = - 1"
| "lastIndexOf c (x # xs) =
     (let r = lastIndexOf c xs
      in if 0 \<le> r then r + 1 else if x = c then 0 else - 1)"

text \<open>\<^verbatim>\<open>s.substring(a, b)\<close>: both indices are clamped to the string, and
  swapped when the first is the larger; \<^verbatim>\<open>s.substring(a)\<close> runs to the end.\<close>

definition substring :: "string \<Rightarrow> int \<Rightarrow> int \<Rightarrow> string" where
  "substring s a b =
     (let n = int (length s);
          a' = min (max a 0) n;
          b' = min (max b 0) n;
          lo = min a' b';
          hi = max a' b'
      in take (nat (hi - lo)) (drop (nat lo) s))"

definition substring_from :: "string \<Rightarrow> int \<Rightarrow> string" where
  "substring_from s a = substring s a (int (length s))"

text \<open>\<^verbatim>\<open>v || d\<close> on an environment variable: the default stands in for a
  variable that is unset or empty.\<close>

definition or_default :: "string option \<Rightarrow> string \<Rightarrow> string" where
  "or_default v d = (case v of None \<Rightarrow> d | Some s \<Rightarrow> if s = [] then d else s)"

section \<open>Node's POSIX \<^verbatim>\<open>path.join\<close>\<close>

text \<open>
  \<^verbatim>\<open>path.join\<close> glues its non-empty arguments with a slash and normalises the
  result: empty segments and \<^verbatim>\<open>.\<close> vanish, \<^verbatim>\<open>..\<close> removes the segment before
  it (and is kept at the front of a relative path), a trailing slash survives.
\<close>

fun normalizeString :: "bool \<Rightarrow> string list \<Rightarrow> string list \<Rightarrow> string list" where
  "normalizeString allowAboveRoot [] acc = rev acc"
| "normalizeString allowAboveRoot (seg # segs) acc =
     (if seg = [] \<or> seg = ''.'' then normalizeString allowAboveRoot segs acc
      else if seg = ''..'' then
        (case acc of
           [] \<Rightarrow> normalizeString allowAboveRoot segs (if allowAboveRoot then [''..''] else [])
         | t # ts \<Rightarrow>
             if t = ''..''
             then normalizeString allowAboveRoot segs (if allowAboveRoot then ''..'' # acc else acc)
             else normalizeString allowAboveRoot segs ts)
      else normalizeString allowAboveRoot segs (seg # acc))"

fun intercalate :: "string \<Rightarrow> string list \<Rightarrow> string" where
  "intercalate sep [] = []"
| "intercalate sep [x] = x"
| "intercalate sep (x # y # ys) = x @ sep @ intercalate sep (y # ys)"

definition normalize :: "string \<Rightarrow> string" where
  "normalize path =
     (if path = [] then ''.''
      else
        let isAbsolute = (hd path = CHR ''/'');
            trailingSeparator = (last path = CHR ''/'');
            p = intercalate ''/'' (normalizeString (\<not> isAbsolute) (split_chr (CHR ''/'') path) [])
        in if p = [] then (if isAbsolute then ''/'' else if trailingSeparator then ''./'' else ''.'')
           else (if isAbsolute then ''/'' else []) @ p @ (if trailingSeparator then ''/'' else []))"

definition posix_join :: "string \<Rightarrow> string \<Rightarrow> string" where
  "posix_join a b =
     (if a = [] \<and> b = [] then ''.''
      else if a = [] then normalize b
      else if b = [] then normalize a
      else normalize (a @ ''/'' @ b))"

section \<open>The world of one conversion run\<close>

datatype error = Error string

text \<open>
  Everything \<^verbatim>\<open>convert\<close> reads from outside: the process (platform, environment
  variables, the platform's \<^verbatim>\<open>path.join\<close>), the two names \<^verbatim>\<open>dirSync\<close> hands
  out, and the outcome of each call into the operating system: whether
  \<^verbatim>\<open>fs.access\<close> succeeds on a path, the error of \<^verbatim>\<open>writeFile\<close> if any, what the
  spawned engine does to the files and whether it fails, the error that hits the
  n-th \<^verbatim>\<open>readFile\<close> if any, and which of the two tasks without dependencies
  completes first.

  \<^verbatim>\<open>dirSync\<close> and \<^verbatim>\<open>removeCallback\<close> are taken to return normally, and a
  successful \<^verbatim>\<open>writeFile\<close> to have put the file in place when it is issued.
  The trace records what the run does, in the order in which it does it.
\<close>

record env =
  platform :: string
  OFFICE_PATH :: "string option"
  PROGRAMFILES_X86 :: "string option"
  PROGRAMFILES :: "string option"
  path_join :: "string \<Rightarrow> string \<Rightarrow> string"
  tempDir_name :: string
  installDir_name :: string
  disk :: "string \<rightharpoonup> bytes"
  access_ok :: "string \<Rightarrow> bool"
  writeFile_err :: "error option"
  execFile :: "string \<Rightarrow> string list \<Rightarrow> (string \<rightharpoonup> bytes) \<Rightarrow> error option \<times> (string \<rightharpoonup> bytes)"
  readFile_err :: "nat \<Rightarrow> error option"
  saveSource_first :: bool

datatype event =
    DirSync string
  | Access string
  | SofficeDone "error + string"
  | WriteFile string bytes
  | WriteDone "error option"
  | ExecFile string "string list"
  | ExecExit "error option"
  | ReadFile string
  | SetTimeout nat
  | RemoveDir string
  | Callback "error option" "bytes option"

record state =
  files :: "string \<rightharpoonup> bytes"
  dirs :: "string list"
  reads :: nat
  finished :: bool
  trace :: "event list"

record results =
  r_soffice :: "string option"
  r_loadDestination :: "bytes option"

definition log :: "event list \<Rightarrow> state \<Rightarrow> state" where
  "log es s = s\<lparr>trace := trace s @ es\<rparr>"

section \<open>The workspace: \<^verbatim>\<open>dirSync\<close> and \<^verbatim>\<open>removeCallback\<close>\<close>

definition dirSync :: "string \<Rightarrow> state \<Rightarrow> state" where
  "dirSync name s = log [DirSync name] (s\<lparr>dirs := name # dirs s\<rparr>)"

definition beneath :: "string \<Rightarrow> string \<Rightarrow> bool" where
  "beneath d p =
     (prefix d p \<and>
      (case drop (length d) p of [] \<Rightarrow> False | c # _ \<Rightarrow> c = CHR ''/'' \<or> c = CHR 0x5C))"

text \<open>\<^verbatim>\<open>unsafeCleanup: true\<close>: the directory goes with everything beneath it.\<close>

definition removeCallback :: "string \<Rightarrow> state \<Rightarrow> state" where
  "removeCallback name s =
     log [RemoveDir name]
       (s\<lparr>dirs := removeAll name (dirs s),
          files := (\<lambda>p. if beneath name p then None else files s p)\<rparr>)"

section \<open>The \<^verbatim>\<open>soffice\<close> task: locating the binary\<close>

definition candidates :: "env \<Rightarrow> error + string list" where
  "candidates env =
     (if platform env = ''darwin'' then
        Inr [''/Applications/LibreOffice.app/Contents/MacOS/soffice'']
      else if platform env = ''linux'' then
        Inr [replace_first ''opt'' ''usr/bin'' (or_default (OFFICE_PATH env) ''/opt/libreoffice''),
             ''/usr/bin/libreoffice'',
             ''/usr/bin/soffice'',
             ''/snap/bin/libreoffice'']
      else if platform env = ''win32'' then
        Inr [path_join env
               (or_default (PROGRAMFILES_X86 env) (''C:'' @ [CHR 0x5C] @ ''Program Files (x86)''))
               ''LIBREO~1/program/soffice.exe'',
             path_join env
               (or_default (PROGRAMFILES_X86 env) (''C:'' @ [CHR 0x5C] @ ''Program Files (x86)''))
               ''LibreOffice/program/soffice.exe'',
             path_join env
               (or_default (PROGRAMFILES env) (''C:'' @ [CHR 0x5C] @ ''Program Files''))
               ''LibreOffice/program/soffice.exe'']
      else Inl (Error (''Operating system not yet supported: '' @ platform env)))"

text \<open>\<^verbatim>\<open>async.filter\<close> keeps the paths that \<^verbatim>\<open>access\<close> accepts, in the order of
  the list; the task answers with the first of them.\<close>

definition soffice_found :: "env \<Rightarrow> string list \<Rightarrow> error + string" where
  "soffice_found env paths =
     (case filter (access_ok env) paths of
        [] \<Rightarrow> Inl (Error ''Could not find soffice binary'')
      | r # _ \<Rightarrow> Inr r)"

definition soffice :: "env \<Rightarrow> error + string" where
  "soffice env =
     (case candidates env of Inl e \<Rightarrow> Inl e | Inr paths \<Rightarrow> soffice_found env paths)"

section \<open>The \<^verbatim>\<open>convert\<close> task: the engine's command line\<close>

definition command :: "env \<Rightarrow> string \<Rightarrow> string \<Rightarrow> string \<Rightarrow> string" where
  "command env tempDir installDir format =
     (''-env:UserInstallation=file://'' @ installDir @ '' --headless --convert-to '' @ format)
     @ ('' --outdir '' @ tempDir @ '' '' @ path_join env tempDir ''source'')"

definition args :: "env \<Rightarrow> string \<Rightarrow> string \<Rightarrow> string \<Rightarrow> string list" where
  "args env tempDir installDir format = split_chr (CHR '' '') (command env tempDir installDir format)"

section \<open>The \<^verbatim>\<open>loadDestination\<close> task: reading the output with \<^verbatim>\<open>async.retry\<close>\<close>

definition destination :: "env \<Rightarrow> string \<Rightarrow> string \<Rightarrow> string" where
  "destination env tempDir format =
     path_join env tempDir (''source.'' @ first_elem (split_chr (CHR '':'') format))"

definition readFile :: "env \<Rightarrow> string \<Rightarrow> state \<Rightarrow> (error + bytes) \<times> state" where
  "readFile env path s =
     (let n = Suc (reads s);
          s' = log [ReadFile path] (s\<lparr>reads := n\<rparr>)
      in case readFile_err env n of
           Some e \<Rightarrow> (Inl e, s')
         | None \<Rightarrow>
             (case files s path of
                None \<Rightarrow>
                  (Inl (Error (''ENOENT: no such file or directory, open '' @
                     [CHR 0x27] @ path @ [CHR 0x27])), s')
              | Some b \<Rightarrow> (Inr b, s')))"

text \<open>
  \<^verbatim>\<open>async.retry\<close> counts attempts from 1; a failed attempt is repeated after
  \<^verbatim>\<open>setTimeout(interval)\<close> as long as the counter is below \<^verbatim>\<open>times\<close>.
\<close>

function retryAttempt ::
  "nat \<Rightarrow> nat \<Rightarrow> (state \<Rightarrow> (error + bytes) \<times> state) \<Rightarrow> nat \<Rightarrow> state \<Rightarrow> (error + bytes) \<times> state"
where
  "retryAttempt times' interval task attempt s =
     (case task s of
        (Inr v, s') \<Rightarrow> (Inr v, s')
      | (Inl e, s') \<Rightarrow>
          if attempt < times'
          then retryAttempt times' interval task (Suc attempt) (log [SetTimeout interval] s')
          else (Inl e, s'))"
  by pat_completeness auto
termination
  by (relation "measure (\<lambda>(times', interval, task, attempt, s). times' - attempt)") auto

definition retry ::
  "nat \<Rightarrow> nat \<Rightarrow> (state \<Rightarrow> (error + bytes) \<times> state) \<Rightarrow> state \<Rightarrow> (error + bytes) \<times> state"
where
  "retry times' interval task s = retryAttempt times' interval task 1 s"

section \<open>\<^verbatim>\<open>convert\<close>: the task graph and its final callback\<close>

text \<open>
  The final callback of \<^verbatim>\<open>async.auto\<close> is wrapped in \<^verbatim>\<open>once\<close>: a second call
  does nothing. The first call removes both directories and then answers the
  caller.
\<close>

definition finalCallback ::
  "string \<Rightarrow> string \<Rightarrow> error option \<Rightarrow> results option \<Rightarrow> state \<Rightarrow> state"
where
  "finalCallback tempDir installDir err res s =
     (if finished s then s
      else
        let s1 = removeCallback tempDir (s\<lparr>finished := True\<rparr>);
            s2 = removeCallback installDir s1
        in case err of
             Some e \<Rightarrow> log [Callback (Some e) None] s2
           | None \<Rightarrow>
               (case res of
                  None \<Rightarrow> log [Callback (Some (Error ''No result from conversion'')) None] s2
                | Some r \<Rightarrow> log [Callback None (r_loadDestination r)] s2))"

definition loadDestination ::
  "env \<Rightarrow> string \<Rightarrow> string \<Rightarrow> string \<Rightarrow> results \<Rightarrow> state \<Rightarrow> state"
where
  "loadDestination env tempDir installDir format res s =
     (case retry 3 200 (readFile env (destination env tempDir format)) s of
        (Inl e, s') \<Rightarrow> finalCallback tempDir installDir (Some e) (Some res) s'
      | (Inr b, s') \<Rightarrow>
          finalCallback tempDir installDir None (Some (res\<lparr>r_loadDestination := Some b\<rparr>)) s')"

text \<open>The task runs only after \<^verbatim>\<open>soffice\<close> has answered, so \<^verbatim>\<open>results.soffice\<close>
  is there; the engine's effect on the files and its error, if any, come from
  the world.\<close>

definition convert_task ::
  "env \<Rightarrow> string \<Rightarrow> string \<Rightarrow> string \<Rightarrow> results \<Rightarrow> state \<Rightarrow> state"
where
  "convert_task env tempDir installDir format res s =
     (let bin = (case r_soffice res of None \<Rightarrow> ''undefined'' | Some b \<Rightarrow> b);
          as = args env tempDir installDir format;
          s1 = log [ExecFile bin as] s;
          (err, fs) = execFile env bin as (files s1);
          s2 = log [ExecExit err] (s1\<lparr>files := fs\<rparr>)
      in case err of
           Some e \<Rightarrow> finalCallback tempDir installDir (Some e) (Some res) s2
         | None \<Rightarrow> loadDestination env tempDir installDir format res s2)"

text \<open>
  The two tasks without dependencies are started in the order of the object's
  keys: \<^verbatim>\<open>soffice\<close> issues its \<^verbatim>\<open>access\<close> calls (or fails at once on an unknown
  platform, and then \<^verbatim>\<open>saveSource\<close> is never started), \<^verbatim>\<open>saveSource\<close> issues
  its \<^verbatim>\<open>writeFile\<close>. They complete in either order. The first failure goes to
  the final callback; a task that completes after that reaches the final
  callback again (with its error, or with the results once nothing is left to
  run), where \<^verbatim>\<open>once\<close> drops the call.
\<close>

definition convert :: "env \<Rightarrow> bytes \<Rightarrow> string \<Rightarrow> state" where
  "convert env document format =
     (let tempDir = tempDir_name env;
          installDir = installDir_name env;
          s0 = dirSync installDir
                 (dirSync tempDir
                    \<lparr>files = disk env, dirs = [], reads = 0, finished = False, trace = []\<rparr>);
          res0 = \<lparr>r_soffice = None, r_loadDestination = None\<rparr>
      in case candidates env of
           Inl e \<Rightarrow> finalCallback tempDir installDir (Some e) (Some res0) (log [SofficeDone (Inl e)] s0)
         | Inr paths \<Rightarrow>
             let s1 = log (map Access paths) s0;
                 src = path_join env tempDir ''source'';
                 s2 = log [WriteFile src document]
                        (s1\<lparr>files := (if writeFile_err env = None
                                       then (files s1)(src \<mapsto> document) else files s1)\<rparr>);
                 found = soffice_found env paths;
                 written = writeFile_err env
             in if saveSource_first env then
                  (case written of
                     Some e \<Rightarrow>
                       finalCallback tempDir installDir
                         (case found of Inl e' \<Rightarrow> Some e' | Inr bin \<Rightarrow> None) (Some res0)
                         (log [SofficeDone found]
                            (finalCallback tempDir installDir (Some e) (Some res0)
                               (log [WriteDone written] s2)))
                   | None \<Rightarrow>
                       (case found of
                          Inl e \<Rightarrow>
                            finalCallback tempDir installDir (Some e) (Some res0)
                              (log [WriteDone written, SofficeDone found] s2)
                        | Inr bin \<Rightarrow>
                            convert_task env tempDir installDir format (res0\<lparr>r_soffice := Some bin\<rparr>)
                              (log [WriteDone written, SofficeDone found] s2)))
                else
                  (case found of
                     Inl e \<Rightarrow>
                       finalCallback tempDir installDir written (Some res0)
                         (log [WriteDone written]
                            (finalCallback tempDir installDir (Some e) (Some res0)
                               (log [SofficeDone found] s2)))
                   | Inr bin \<Rightarrow>
                       (case written of
                          Some e \<Rightarrow>
                            finalCallback tempDir installDir (Some e) (Some res0)
                              (log [SofficeDone found, WriteDone written] s2)
                        | None \<Rightarrow>
                            convert_task env tempDir installDir format (res0\<lparr>r_soffice := Some bin\<rparr>)
                              (log [SofficeDone found, WriteDone written] s2))))"

section \<open>The chat glue: \<^verbatim>\<open>messageCreate\<close> in \<^verbatim>\<open>makepdf.ts\<close> and \<^verbatim>\<open>message\<close> in \<^verbatim>\<open>makepdf.js\<close>\<close>

record attachment =
  name :: string
  url :: string

text \<open>
  Of a message the handlers read the author, the text, whether the channel is a
  direct message, whether \<^verbatim>\<open>guild.members.me\<close> is there, whether the message
  mentions the bot, whether its author is an administrator, and the
  attachments.
\<close>

record message =
  author_id :: string
  content :: string
  channel_is_DM :: bool
  guild_me :: bool
  mentions_me :: bool
  member_is_admin :: bool
  attachments :: "attachment list"

text \<open>
  The bot: its own user id, the allow-list \<^verbatim>\<open>MAKEPDF_SETTINGS_FORMATS\<close>, what a
  download of a URL gives, and what \<^verbatim>\<open>convert\<close> hands to its callback.
\<close>

record bot =
  client_user_id :: "string option"
  SETTINGS_FORMATS :: string
  fetch :: "string \<Rightarrow> error + bytes"
  convert_answer :: "bytes \<Rightarrow> string \<Rightarrow> error option \<times> bytes option"

datatype action =
    Fetch string
  | Convert bytes string
  | Send_failure
  | Log string
  | Send_file string "bytes option"

datatype outcome = Ignored | Debug_reply | Handled "action list list"

definition extension :: "string \<Rightarrow> string" where
  "extension nm = substring_from nm (lastIndexOf (CHR ''.'') nm + 1)"

definition newName :: "string \<Rightarrow> string" where
  "newName nm = substring nm 0 (lastIndexOf (CHR ''.'') nm) @ ''.pdf''"

definition error_text :: "error option \<Rightarrow> string" where
  "error_text err =
     (case err of
        None \<Rightarrow> ''null''
      | Some (Error m) \<Rightarrow> if m = [] then ''Error'' else ''Error: '' @ m)"

text \<open>\<^verbatim>\<open>makepdf.ts\<close>, the function mapped over the attachments.\<close>

definition handle_attachment :: "bot \<Rightarrow> attachment \<Rightarrow> action list" where
  "handle_attachment b a =
     (if url a = [] then []
      else
        let formats = split_chr (CHR '','') (SETTINGS_FORMATS b)
        in if extension (name a) \<notin> set formats then []
           else
             Fetch (url a) #
             (case fetch b (url a) of
                Inl e \<Rightarrow> []
              | Inr fileData \<Rightarrow>
                  Convert fileData ''.pdf'' #
                  (case convert_answer b fileData ''.pdf'' of
                     (Some e, pdfData) \<Rightarrow>
                       [Send_failure, Log (''Error converting file : '' @ error_text (Some e))]
                   | (None, None) \<Rightarrow>
                       [Send_failure, Log (''Error converting file : '' @ error_text None)]
                   | (None, Some pdf) \<Rightarrow> [Send_file (newName (name a)) (Some pdf)])))"

definition debug_reply :: "message \<Rightarrow> bool" where
  "debug_reply msg =
     (includes_str ''debug'' (content msg) \<and>
      (channel_is_DM msg \<or> (guild_me msg \<and> mentions_me msg \<and> member_is_admin msg)))"

definition messageCreate :: "bot \<Rightarrow> message \<Rightarrow> outcome" where
  "messageCreate b msg =
     (if Some (author_id msg) = client_user_id b then Ignored
      else if debug_reply msg then Debug_reply
      else if attachments msg = [] then Ignored
      else Handled (map (handle_attachment b) (attachments msg)))"

text \<open>\<^verbatim>\<open>makepdf.js\<close>: the download is \<^verbatim>\<open>https.get\<close>, whose response either ends
  with the data or emits an error; the conversion callback tests the error
  only. The handler reads \<^verbatim>\<open>client.user.id\<close>; the client's user is set before
  the first message arrives.\<close>

definition legacy_attachment :: "bot \<Rightarrow> attachment \<Rightarrow> action list" where
  "legacy_attachment b a =
     (if url a = [] then []
      else
        let formats = split_chr (CHR '','') (SETTINGS_FORMATS b)
        in if extension (name a) \<notin> set formats then []
           else
             Fetch (url a) #
             (case fetch b (url a) of
                Inl (Error m) \<Rightarrow> [Send_failure, Log (''Error during HTTP request : '' @ m)]
              | Inr fileData \<Rightarrow>
                  Convert fileData ''.pdf'' #
                  (case convert_answer b fileData ''.pdf'' of
                     (Some e, pdfData) \<Rightarrow>
                       [Send_failure, Log (''Error converting file : '' @ error_text (Some e))]
                   | (None, pdfData) \<Rightarrow> [Send_file (newName (name a)) pdfData])))"

definition legacy_debug_reply :: "message \<Rightarrow> bool" where
  "legacy_debug_reply msg =
     (includes_str ''debug'' (content msg) \<and>
      (channel_is_DM msg \<or> (mentions_me msg \<and> member_is_admin msg)))"

definition legacy_message :: "bot \<Rightarrow> message \<Rightarrow> outcome" where
  "legacy_message b msg =
     (if Some (author_id msg) = client_user_id b then Ignored
      else if legacy_debug_reply msg then Debug_reply
      else Handled (map (legacy_attachment b) (attachments msg)))"

text \<open>How often \<^verbatim>\<open>convert\<close> is called for one attachment.\<close>

fun conversions :: "action list \<Rightarrow> nat" where
  "conversions [] = 0"
| "conversions (Convert d f # as) = Suc (conversions as)"
| "conversions (a # as) = conversions as"

section \<open>Observing a run\<close>

text \<open>
  The trace of a run is read through a few projections: the events of the
  teardown and the answer to the caller, the events of the retry loop, the
  paths handed to \<^verbatim>\<open>access\<close>, the reads and timeouts of a retry that takes
  k attempts, and the answers given to the caller.
\<close>

fun is_closing :: "event \<Rightarrow> bool" where
  "is_closing (RemoveDir d) = True"
| "is_closing (Callback e r) = True"
| "is_closing ev = False"

fun is_retry_event :: "event \<Rightarrow> bool" where
  "is_retry_event (ReadFile p) = True"
| "is_retry_event (SetTimeout n) = True"
| "is_retry_event ev = False"

fun accesses :: "event list \<Rightarrow> string list" where
  "accesses [] = []"
| "accesses (Access p # es) = p # accesses es"
| "accesses (e # es) = accesses es"

fun attempt_events :: "nat \<Rightarrow> string \<Rightarrow> nat \<Rightarrow> event list" where
  "attempt_events interval p 0 = []"
| "attempt_events interval p (Suc 0) = [ReadFile p]"
| "attempt_events interval p (Suc (Suc k)) =
     attempt_events interval p (Suc k) @ [SetTimeout interval, ReadFile p]"

fun callbacks :: "event list \<Rightarrow> (error option \<times> bytes option) list" where
  "callbacks [] = []"
| "callbacks (Callback e r # es) = (e, r) # callbacks es"
| "callbacks (ev # es) = callbacks es"

section \<open>Concrete worlds\<close>

text \<open>
  A Linux host where the engine is installed as \<^verbatim>\<open>/usr/bin/soffice\<close> and
  writes \<^verbatim>\<open>source..pdf\<close> into the staging directory, and variations of it:
  an unknown platform, reads that fail at first or always, an engine that writes
  \<^verbatim>\<open>source.pdf\<close>, two values of \<^verbatim>\<open>OFFICE_PATH\<close>, a temp root with a space
  in its name. Then a bot with an allow-list, a message of its own and a message
  of a user.
\<close>

definition env_linux :: env where
  "env_linux =
     \<lparr>platform = ''linux'', OFFICE_PATH = None, PROGRAMFILES_X86 = None, PROGRAMFILES = None,
      path_join = posix_join,
      tempDir_name = ''/tmp/libreofficeConvert_1'', installDir_name = ''/tmp/soffice_2'',
      disk = Map.empty,
      access_ok = (\<lambda>p. p = ''/usr/bin/soffice'' \<or> p = ''/snap/bin/libreoffice''),
      writeFile_err = None,
      execFile = (\<lambda>bin as fs. (None, fs(''/tmp/libreofficeConvert_1/source..pdf'' \<mapsto> ''PDF-OK''))),
      readFile_err = (\<lambda>n. None), saveSource_first = False\<rparr>"

definition env_freebsd :: env where
  "env_freebsd = env_linux\<lparr>platform := ''freebsd''\<rparr>"

definition env_slow :: env where
  "env_slow = env_linux\<lparr>readFile_err := (\<lambda>n. if n < 2 then Some (Error ''EBUSY'') else None)\<rparr>"

definition env_never :: env where
  "env_never = env_linux\<lparr>readFile_err := (\<lambda>n. Some (Error ''EBUSY''))\<rparr>"

definition state_exited :: state where
  "state_exited =
     \<lparr>files = [''/tmp/libreofficeConvert_1/source..pdf'' \<mapsto> ''PDF-OK''],
      dirs = [''/tmp/soffice_2'', ''/tmp/libreofficeConvert_1''],
      reads = 0, finished = False, trace = []\<rparr>"

definition env_pdf :: env where
  "env_pdf = env_linux\<lparr>execFile :=
     (\<lambda>bin as fs. (None, fs(''/tmp/libreofficeConvert_1/source.pdf'' \<mapsto> ''PDF-OK'')))\<rparr>"

definition env_office :: env where
  "env_office = env_linux\<lparr>OFFICE_PATH := Some ''/opt/libreoffice7.6/program/soffice''\<rparr>"

definition env_custom :: env where
  "env_custom = env_linux\<lparr>OFFICE_PATH := Some ''/usr/lib/libreoffice/program/soffice''\<rparr>"

definition env_space :: env where
  "env_space = env_linux\<lparr>tempDir_name := ''/tmp/my files/libreofficeConvert_1''\<rparr>"

definition bot_example :: bot where
  "bot_example =
     \<lparr>client_user_id = Some ''42'', SETTINGS_FORMATS = ''docx,pptx,README'',
      fetch = (\<lambda>u. Inr ''data''), convert_answer = (\<lambda>d f. (None, Some ''PDF''))\<rparr>"

definition message_own :: message where
  "message_own =
     \<lparr>author_id = ''42'', content = ''here is your file'', channel_is_DM = False, guild_me = True,
      mentions_me = False, member_is_admin = False,
      attachments = [\<lparr>name = ''a.docx'', url = ''https://cdn.example/a.docx''\<rparr>]\<rparr>"

definition message_user :: message where
  "message_user =
     \<lparr>author_id = ''7'', content = ''please convert'', channel_is_DM = False, guild_me = True,
      mentions_me = False, member_is_admin = False,
      attachments = [\<lparr>name = ''a.docx'', url = ''https://cdn.example/a.docx''\<rparr>,
                     \<lparr>name = ''b.txt'', url = ''https://cdn.example/b.txt''\<rparr>,
                     \<lparr>name = ''README'', url = ''https://cdn.example/README''\<rparr>]\<rparr>"

section \<open>Frame lemmas for the stages\<close>

lemma trace_log [simp]: "trace (log es s) = trace s @ es"
  and dirs_log [simp]: "dirs (log es s) = dirs s"
  and files_log [simp]: "files (log es s) = files s"
  and reads_log [simp]: "reads (log es s) = reads s"
  and finished_log [simp]: "finished (log es s) = finished s"
  by (simp_all add: log_def)

lemma removeCallback_simps [simp]:
  "trace (removeCallback d s) = trace s @ [RemoveDir d]"
  "dirs (removeCallback d s) = removeAll d (dirs s)"
  "finished (removeCallback d s) = finished s"
  "reads (removeCallback d s) = reads s"
  by (simp_all add: removeCallback_def)

lemma finalCallback_finished [simp]: "finished s \<Longrightarrow> finalCallback t i err res s = s"
  by (simp add: finalCallback_def)

lemma finalCallback_first:
  assumes "\<not> finished s"
  shows "finished (finalCallback t i err res s)"
    and "dirs (finalCallback t i err res s) = removeAll i (removeAll t (dirs s))"
    and "\<exists>e r. trace (finalCallback t i err res s) = trace s @ [RemoveDir t, RemoveDir i, Callback e r]"
  using assms by (auto simp: finalCallback_def Let_def split: option.splits)

lemma readFile_frame:
  "readFile env p s = (r, s') \<Longrightarrow>
     finished s' = finished s \<and> dirs s' = dirs s \<and> files s' = files s \<and>
     reads s' = Suc (reads s) \<and> trace s' = trace s @ [ReadFile p]"
  by (auto simp: readFile_def Let_def split: option.splits)

lemma retryAttempt_frame:
  "retryAttempt t i (readFile env p) a s = (r, s') \<Longrightarrow>
     finished s' = finished s \<and> dirs s' = dirs s \<and> files s' = files s \<and>
     (\<exists>evs. trace s' = trace s @ evs \<and> list_all is_retry_event evs)"
proof (induction t i "readFile env p" a s arbitrary: r s' rule: retryAttempt.induct)
  case (1 t i a s)
  obtain r1 s1 where rf: "readFile env p s = (r1, s1)" by (cases "readFile env p s")
  note fr = readFile_frame [OF rf]
  show ?case
  proof (cases r1)
    case (Inr v)
    with 1 rf fr show ?thesis by (simp add: retryAttempt.simps [of t i _ a s])
  next
    case (Inl e)
    show ?thesis
    proof (cases "a < t")
      case False
      with 1 rf fr Inl show ?thesis by (simp add: retryAttempt.simps [of t i _ a s])
    next
      case True
      with 1(2) rf Inl have rec: "retryAttempt t i (readFile env p) (Suc a) (log [SetTimeout i] s1) = (r, s')"
        by (simp add: retryAttempt.simps [of t i _ a s])
      from 1(1) [OF rf [symmetric] _ True rec] Inl
      obtain evs where "finished s' = finished s1" "dirs s' = dirs s1" "files s' = files s1"
        "trace s' = (trace s1 @ [SetTimeout i]) @ evs" "list_all is_retry_event evs"
        by auto
      with fr show ?thesis by simp
    qed
  qed
qed

lemma loadDestination_shape:
  assumes "\<not> finished s"
  shows "\<exists>evs e r. trace (loadDestination env t i f res s) =
            trace s @ evs @ [RemoveDir t, RemoveDir i, Callback e r] \<and> list_all is_retry_event evs"
    and "dirs (loadDestination env t i f res s) = removeAll i (removeAll t (dirs s))"
    and "finished (loadDestination env t i f res s)"
proof -
  obtain r s' where rt: "retry 3 200 (readFile env (destination env t f)) s = (r, s')"
    by (cases "retry 3 200 (readFile env (destination env t f)) s")
  from retryAttempt_frame [OF rt [unfolded retry_def]] assms
  obtain evs where fr: "\<not> finished s'" "dirs s' = dirs s" "trace s' = trace s @ evs"
    "list_all is_retry_event evs" by auto
  have ld: "loadDestination env t i f res s =
      (case r of Inl e \<Rightarrow> finalCallback t i (Some e) (Some res) s'
       | Inr b \<Rightarrow> finalCallback t i None (Some (res\<lparr>r_loadDestination := Some b\<rparr>)) s')"
    by (simp add: loadDestination_def rt split: sum.splits)
  show "\<exists>evs e r. trace (loadDestination env t i f res s) =
            trace s @ evs @ [RemoveDir t, RemoveDir i, Callback e r] \<and> list_all is_retry_event evs"
    using finalCallback_first(3) [OF fr(1)] fr(3,4) unfolding ld
    by (cases r) (simp_all, metis+)
  show "dirs (loadDestination env t i f res s) = removeAll i (removeAll t (dirs s))"
    using finalCallback_first(2) [OF fr(1)] fr(2) unfolding ld by (cases r) simp_all
  show "finished (loadDestination env t i f res s)"
    using finalCallback_first(1) [OF fr(1)] unfolding ld by (cases r) simp_all
qed

lemma convert_task_shape:
  assumes "\<not> finished s"
  shows "\<exists>x evs e r. trace (convert_task env t i f \<lparr>r_soffice = Some bin, r_loadDestination = ld\<rparr> s) =
            trace s @ [ExecFile bin (args env t i f), ExecExit x] @ evs @
              [RemoveDir t, RemoveDir i, Callback e r] \<and> list_all is_retry_event evs \<and>
            (x = None \<or> evs = [])"
    and "dirs (convert_task env t i f res s) = removeAll i (removeAll t (dirs s))"
    and "finished (convert_task env t i f res s)"
proof -
  let ?res = "\<lparr>r_soffice = Some bin, r_loadDestination = ld\<rparr>"
  obtain x fs where ex: "execFile env bin (args env t i f) (files s) = (x, fs)"
    by (cases "execFile env bin (args env t i f) (files s)")
  let ?s2 = "log [ExecExit x] ((log [ExecFile bin (args env t i f)] s)\<lparr>files := fs\<rparr>)"
  have nf: "\<not> finished ?s2" using assms by simp
  have tr: "trace ?s2 = trace s @ [ExecFile bin (args env t i f), ExecExit x]" by simp
  have ct: "convert_task env t i f ?res s =
      (case x of Some e \<Rightarrow> finalCallback t i (Some e) (Some ?res) ?s2
       | None \<Rightarrow> loadDestination env t i f ?res ?s2)"
    by (simp add: convert_task_def Let_def ex)
  show "\<exists>x evs e r. trace (convert_task env t i f ?res s) =
            trace s @ [ExecFile bin (args env t i f), ExecExit x] @ evs @
              [RemoveDir t, RemoveDir i, Callback e r] \<and> list_all is_retry_event evs \<and>
            (x = None \<or> evs = [])"
  proof (cases x)
    case None
    from loadDestination_shape(1) [OF nf, of env t i f ?res] obtain evs e r where
      "trace (loadDestination env t i f ?res ?s2) = trace ?s2 @ evs @ [RemoveDir t, RemoveDir i, Callback e r]"
      "list_all is_retry_event evs" by blast
    with None ct tr show ?thesis by (intro exI [of _ x] exI [of _ evs] exI [of _ e] exI [of _ r]) simp
  next
    case (Some err)
    from finalCallback_first(3) [OF nf, of t i "Some err" "Some ?res"] obtain e r where
      "trace (finalCallback t i (Some err) (Some ?res) ?s2) = trace ?s2 @ [RemoveDir t, RemoveDir i, Callback e r]"
      by blast
    with Some ct tr show ?thesis by (intro exI [of _ x] exI [of _ "[]"] exI [of _ e] exI [of _ r]) simp
  qed
  obtain x' fs' where ex': "execFile env (case r_soffice res of None \<Rightarrow> ''undefined'' | Some b \<Rightarrow> b)
      (args env t i f) (files s) = (x', fs')"
    by (cases "execFile env (case r_soffice res of None \<Rightarrow> ''undefined'' | Some b \<Rightarrow> b) (args env t i f) (files s)")
  let ?b = "case r_soffice res of None \<Rightarrow> ''undefined'' | Some b \<Rightarrow> b"
  let ?s3 = "log [ExecExit x'] ((log [ExecFile ?b (args env t i f)] s)\<lparr>files := fs'\<rparr>)"
  have nf3: "\<not> finished ?s3" using assms by simp
  have ct3: "convert_task env t i f res s =
      (case x' of Some e \<Rightarrow> finalCallback t i (Some e) (Some res) ?s3
       | None \<Rightarrow> loadDestination env t i f res ?s3)"
    by (simp add: convert_task_def Let_def ex')
  show "dirs (convert_task env t i f res s) = removeAll i (removeAll t (dirs s))"
    using finalCallback_first(2) [OF nf3] loadDestination_shape(2) [OF nf3] unfolding ct3
    by (cases x') simp_all
  show "finished (convert_task env t i f res s)"
    using finalCallback_first(1) [OF nf3] loadDestination_shape(3) [OF nf3] unfolding ct3
    by (cases x') simp_all
qed

lemma dirSync_simps [simp]:
  "trace (dirSync d s) = trace s @ [DirSync d]"
  "dirs (dirSync d s) = d # dirs s"
  "finished (dirSync d s) = finished s"
  by (simp_all add: dirSync_def)

lemma convert_unsupported:
  "candidates env = Inl e \<Longrightarrow>
     trace (convert env doc fmt) =
       [DirSync (tempDir_name env), DirSync (installDir_name env), SofficeDone (Inl e),
        RemoveDir (tempDir_name env), RemoveDir (installDir_name env), Callback (Some e) None]"
  by (simp add: convert_def Let_def finalCallback_def)

lemma convert_ok_trace:
  assumes c: "candidates env = Inr paths"
    and f: "soffice_found env paths = Inr bin"
    and w: "writeFile_err env = None"
  shows "\<exists>x evs e r. trace (convert env doc fmt) =
       [DirSync (tempDir_name env), DirSync (installDir_name env)] @ map Access paths @
       [WriteFile (path_join env (tempDir_name env) ''source'') doc] @
       (if saveSource_first env then [WriteDone None, SofficeDone (Inr bin)]
        else [SofficeDone (Inr bin), WriteDone None]) @
       [ExecFile bin (args env (tempDir_name env) (installDir_name env) fmt), ExecExit x] @ evs @
       [RemoveDir (tempDir_name env), RemoveDir (installDir_name env), Callback e r] \<and>
       list_all is_retry_event evs \<and> (x = None \<or> evs = [])"
proof -
  let ?t = "tempDir_name env" and ?i = "installDir_name env"
  let ?src = "path_join env ?t ''source''"
  let ?pre = "[DirSync ?t, DirSync ?i] @ map Access paths @ [WriteFile ?src doc]"
  let ?s0 = "dirSync ?i (dirSync ?t \<lparr>files = disk env, dirs = [], reads = 0, finished = False, trace = []\<rparr>)"
  let ?s1 = "log (map Access paths) ?s0"
  let ?s2 = "log [WriteFile ?src doc] (?s1\<lparr>files := (files ?s1)(?src \<mapsto> doc)\<rparr>)"
  let ?ds = "if saveSource_first env then [WriteDone None, SofficeDone (Inr bin)]
        else [SofficeDone (Inr bin), WriteDone None]"
  have eq: "convert env doc fmt =
      convert_task env ?t ?i fmt \<lparr>r_soffice = Some bin, r_loadDestination = None\<rparr> (log ?ds ?s2)"
    using c f w by (simp add: convert_def Let_def)
  have s2: "trace (log ?ds ?s2) = ?pre @ ?ds" "\<not> finished (log ?ds ?s2)" by simp_all
  from convert_task_shape(1) [OF s2(2), of env ?t ?i fmt bin None]
  show ?thesis unfolding eq s2(1) by simp
qed

lemma convert_dirs: "dirs (convert env doc fmt) = [] \<and> finished (convert env doc fmt)"
proof -
  note finalCallback_first(1,2) [simp] convert_task_shape(2,3) [simp]
  show ?thesis
    by (simp add: convert_def Let_def split: sum.splits option.splits)
qed

lemma filter_closing_Access [simp]: "filter is_closing (map Access ps) = []"
  by (induction ps) simp_all

lemma filter_closing_retry: "list_all is_retry_event evs \<Longrightarrow> filter is_closing evs = []"
proof (induction evs)
  case Nil
  show ?case by simp
next
  case (Cons ev evs)
  then show ?case by (cases ev) simp_all
qed

lemma convert_cases [case_names unsupported not_found write_failed started]:
  obtains
    (unsupported) e where "candidates env = Inl e"
      "trace (convert env doc fmt) =
         [DirSync (tempDir_name env), DirSync (installDir_name env), SofficeDone (Inl e),
          RemoveDir (tempDir_name env), RemoveDir (installDir_name env), Callback (Some e) None]"
  | (not_found) paths e1 where "candidates env = Inr paths" "soffice_found env paths = Inl e1"
      "trace (convert env doc fmt) =
         [DirSync (tempDir_name env), DirSync (installDir_name env)] @ map Access paths @
         [WriteFile (path_join env (tempDir_name env) ''source'') doc] @
         (if saveSource_first env then
            (case writeFile_err env of
               Some e \<Rightarrow> [WriteDone (Some e), RemoveDir (tempDir_name env),
                          RemoveDir (installDir_name env), Callback (Some e) None,
                          SofficeDone (Inl e1)]
             | None \<Rightarrow> [WriteDone None, SofficeDone (Inl e1), RemoveDir (tempDir_name env),
                        RemoveDir (installDir_name env), Callback (Some e1) None])
          else [SofficeDone (Inl e1), RemoveDir (tempDir_name env),
                RemoveDir (installDir_name env), Callback (Some e1) None,
                WriteDone (writeFile_err env)])"
  | (write_failed) paths bin e2 where "candidates env = Inr paths"
      "soffice_found env paths = Inr bin" "writeFile_err env = Some e2"
      "trace (convert env doc fmt) =
         [DirSync (tempDir_name env), DirSync (installDir_name env)] @ map Access paths @
         [WriteFile (path_join env (tempDir_name env) ''source'') doc] @
         (if saveSource_first env then
            [WriteDone (Some e2), RemoveDir (tempDir_name env),
             RemoveDir (installDir_name env), Callback (Some e2) None, SofficeDone (Inr bin)]
          else [SofficeDone (Inr bin), WriteDone (Some e2), RemoveDir (tempDir_name env),
                RemoveDir (installDir_name env), Callback (Some e2) None])"
  | (started) paths bin x evs e r where "candidates env = Inr paths"
      "soffice_found env paths = Inr bin" "writeFile_err env = None"
      "trace (convert env doc fmt) =
         [DirSync (tempDir_name env), DirSync (installDir_name env)] @ map Access paths @
         [WriteFile (path_join env (tempDir_name env) ''source'') doc] @
         (if saveSource_first env then [WriteDone None, SofficeDone (Inr bin)]
          else [SofficeDone (Inr bin), WriteDone None]) @
         [ExecFile bin (args env (tempDir_name env) (installDir_name env) fmt), ExecExit x] @ evs @
         [RemoveDir (tempDir_name env), RemoveDir (installDir_name env), Callback e r]"
      "list_all is_retry_event evs" "x = None \<or> evs = []"
proof (cases "candidates env")
  case (Inl e)
  from unsupported [OF Inl convert_unsupported [OF Inl]] show ?thesis .
next
  case (Inr paths)
  show ?thesis
  proof (cases "soffice_found env paths")
    case (Inl e1)
    show ?thesis
      by (rule not_found [OF Inr Inl])
         (simp add: convert_def Let_def finalCallback_def Inr Inl split: option.splits)
  next
    case found: (Inr bin)
    show ?thesis
    proof (cases "writeFile_err env")
      case None
      from convert_ok_trace [OF Inr found None, of doc fmt] started [OF Inr found None]
      show ?thesis by blast
    next
      case (Some e2)
      show ?thesis
        by (rule write_failed [OF Inr found Some])
           (simp add: convert_def Let_def finalCallback_def Inr found Some)
    qed
  qed
qed

section \<open>The teardown\<close>

text \<open>
  C1. Whatever the outside world does (unknown platform, no binary, a failed
  write, a failed engine, three failed reads, or success), the trace of a run
  holds exactly one removal of the staging directory, then exactly one removal
  of the profile directory, then exactly one answer to the caller, in this
  order; and neither directory exists in the final state.
\<close>

theorem convert_teardown_once:
  "(\<exists>err res. filter is_closing (trace (convert env document format)) =
      [RemoveDir (tempDir_name env), RemoveDir (installDir_name env), Callback err res]) \<and>
   tempDir_name env \<notin> set (dirs (convert env document format)) \<and>
   installDir_name env \<notin> set (dirs (convert env document format))"
proof -
  have "\<exists>err res. filter is_closing (trace (convert env document format)) =
      [RemoveDir (tempDir_name env), RemoveDir (installDir_name env), Callback err res]"
    by (cases rule: convert_cases [of env document format])
       (simp_all add: filter_closing_retry split: option.splits)
  then show ?thesis by (simp add: convert_dirs)
qed

section \<open>The locator\<close>

lemma accesses_append [simp]: "accesses (xs @ ys) = accesses xs @ accesses ys"
  by (induction xs rule: accesses.induct) simp_all

lemma accesses_map_Access [simp]: "accesses (map Access ps) = ps"
  by (induction ps) simp_all

lemma accesses_retry: "list_all is_retry_event evs \<Longrightarrow> accesses evs = []"
proof (induction evs)
  case Nil
  show ?case by simp
next
  case (Cons ev evs)
  then show ?case by (cases ev) simp_all
qed

lemma convert_accesses:
  "accesses (trace (convert env doc fmt)) = (case candidates env of Inl e \<Rightarrow> [] | Inr paths \<Rightarrow> paths)"
  by (cases rule: convert_cases [of env doc fmt])
     (simp_all add: accesses_retry split: option.splits)

lemma convert_SofficeDone: "SofficeDone (soffice env) \<in> set (trace (convert env doc fmt))"
  by (cases rule: convert_cases [of env doc fmt])
     (simp_all add: soffice_def split: option.splits)

lemma soffice_found_first:
  "soffice_found env paths =
     (case find (access_ok env) paths of
        None \<Rightarrow> Inl (Error ''Could not find soffice binary'')
      | Some p \<Rightarrow> Inr p)"
  by (induction paths) (simp_all add: soffice_found_def)

text \<open>
  C3. On each of the three supported platforms the run hands every path of the
  platform's candidate list to \<^verbatim>\<open>access\<close>, in the order of the list, and the
  task answers with the first path that \<^verbatim>\<open>access\<close> accepts; when it accepts
  none, the task fails with "Could not find soffice binary".
\<close>

theorem soffice_first_existing:
  assumes "platform env \<in> {''darwin'', ''linux'', ''win32''}"
  shows "\<exists>paths. candidates env = Inr paths \<and> paths \<noteq> [] \<and>
           accesses (trace (convert env document format)) = paths \<and>
           SofficeDone (soffice env) \<in> set (trace (convert env document format)) \<and>
           ((\<forall>p \<in> set paths. \<not> access_ok env p) \<longrightarrow>
              soffice env = Inl (Error ''Could not find soffice binary'')) \<and>
           (\<forall>n < length paths.
              access_ok env (paths ! n) \<and> (\<forall>m < n. \<not> access_ok env (paths ! m)) \<longrightarrow>
              soffice env = Inr (paths ! n))"
proof -
  from assms obtain paths where c: "candidates env = Inr paths" and ne: "paths \<noteq> []"
    by (auto simp: candidates_def)
  have acc: "accesses (trace (convert env document format)) = paths"
    by (simp add: convert_accesses c)
  have so: "soffice env = (case find (access_ok env) paths of
        None \<Rightarrow> Inl (Error ''Could not find soffice binary'') | Some p \<Rightarrow> Inr p)"
    by (simp add: soffice_def c soffice_found_first)
  have none: "(\<forall>p \<in> set paths. \<not> access_ok env p) \<longrightarrow>
      soffice env = Inl (Error ''Could not find soffice binary'')"
  proof
    assume "\<forall>p \<in> set paths. \<not> access_ok env p"
    then have "find (access_ok env) paths = None" by (simp add: find_None_iff)
    then show "soffice env = Inl (Error ''Could not find soffice binary'')" by (simp add: so)
  qed
  have some: "\<forall>n < length paths.
      access_ok env (paths ! n) \<and> (\<forall>m < n. \<not> access_ok env (paths ! m)) \<longrightarrow>
      soffice env = Inr (paths ! n)"
  proof (intro allI impI)
    fix n assume n: "n < length paths"
      and "access_ok env (paths ! n) \<and> (\<forall>m < n. \<not> access_ok env (paths ! m))"
    then have "find (access_ok env) paths = Some (paths ! n)"
      by (auto simp: find_Some_iff)
    then show "soffice env = Inr (paths ! n)" by (simp add: so)
  qed
  from c ne acc convert_SofficeDone none some show ?thesis by blast
qed

theorem soffice_first_existing_witness:
  "platform env_linux \<in> {''darwin'', ''linux'', ''win32''} \<and>
   accesses (trace (convert env_linux ''hello'' ''.pdf'')) =
     [''/usr/bin/libreoffice'', ''/usr/bin/libreoffice'', ''/usr/bin/soffice'', ''/snap/bin/libreoffice''] \<and>
   soffice env_linux = Inr ''/usr/bin/soffice''"
proof -
  have p: "platform env_linux \<in> {''darwin'', ''linux'', ''win32''}" by (simp add: env_linux_def)
  have c: "candidates env_linux =
      Inr [''/usr/bin/libreoffice'', ''/usr/bin/libreoffice'', ''/usr/bin/soffice'', ''/snap/bin/libreoffice'']"
    by (simp add: candidates_def env_linux_def or_default_def)
  from soffice_first_existing [OF p, of "''hello''" "''.pdf''"] c
  have a: "accesses (trace (convert env_linux ''hello'' ''.pdf'')) =
      [''/usr/bin/libreoffice'', ''/usr/bin/libreoffice'', ''/usr/bin/soffice'', ''/snap/bin/libreoffice'']"
    and s: "\<forall>n < 4. access_ok env_linux ([''/usr/bin/libreoffice'', ''/usr/bin/libreoffice'', ''/usr/bin/soffice'', ''/snap/bin/libreoffice''] ! n) \<and>
        (\<forall>m < n. \<not> access_ok env_linux ([''/usr/bin/libreoffice'', ''/usr/bin/libreoffice'', ''/usr/bin/soffice'', ''/snap/bin/libreoffice''] ! m)) \<longrightarrow>
        soffice env_linux = Inr ([''/usr/bin/libreoffice'', ''/usr/bin/libreoffice'', ''/usr/bin/soffice'', ''/snap/bin/libreoffice''] ! n)"
    by auto
  have "\<forall>m < (2::nat). \<not> access_ok env_linux ([''/usr/bin/libreoffice'', ''/usr/bin/libreoffice'', ''/usr/bin/soffice'', ''/snap/bin/libreoffice''] ! m)"
    by (simp add: env_linux_def less_Suc_eq numeral_2_eq_2)
  with s [rule_format, of 2] have "soffice env_linux = Inr ''/usr/bin/soffice''"
    by (simp add: env_linux_def)
  with p a show ?thesis by simp
qed

text \<open>
  C5. On any other platform the task fails at once with "Operating system not
  yet supported", and the run makes no call to \<^verbatim>\<open>access\<close>: it only tears the
  workspace down and answers the caller.
\<close>

theorem unsupported_platform:
  assumes "platform env \<notin> {''darwin'', ''linux'', ''win32''}"
  shows "soffice env = Inl (Error (''Operating system not yet supported: '' @ platform env)) \<and>
         accesses (trace (convert env document format)) = [] \<and>
         trace (convert env document format) =
           [DirSync (tempDir_name env), DirSync (installDir_name env),
            SofficeDone (Inl (Error (''Operating system not yet supported: '' @ platform env))),
            RemoveDir (tempDir_name env), RemoveDir (installDir_name env),
            Callback (Some (Error (''Operating system not yet supported: '' @ platform env))) None]"
proof -
  from assms have c: "candidates env = Inl (Error (''Operating system not yet supported: '' @ platform env))"
    by (simp add: candidates_def)
  from convert_unsupported [OF c, of document format] c show ?thesis
    by (simp add: soffice_def)
qed

theorem unsupported_platform_witness:
  "platform env_freebsd \<notin> {''darwin'', ''linux'', ''win32''} \<and>
   soffice env_freebsd = Inl (Error ''Operating system not yet supported: freebsd'') \<and>
   accesses (trace (convert env_freebsd ''hello'' ''.pdf'')) = []"
proof -
  have p: "platform env_freebsd \<notin> {''darwin'', ''linux'', ''win32''}"
    by (simp add: env_freebsd_def env_linux_def)
  from unsupported_platform [OF p, of "''hello''" "''.pdf''"] p show ?thesis
    by (simp add: env_freebsd_def env_linux_def)
qed

section \<open>The order of the stages\<close>

lemma before_occurrence:
  assumes "xs @ rest = pre @ z # post" and "z \<notin> set xs"
  shows "set xs \<subseteq> set pre"
proof -
  from assms(1) obtain us where
    "(xs = pre @ us \<and> us @ rest = z # post) \<or> (xs @ us = pre \<and> rest = us @ z # post)"
    by (auto simp: append_eq_append_conv2)
  then show ?thesis
  proof
    assume a: "xs = pre @ us \<and> us @ rest = z # post"
    show ?thesis
    proof (cases us)
      case Nil
      with a show ?thesis by simp
    next
      case (Cons u us')
      with a assms(2) show ?thesis by simp
    qed
  next
    assume "xs @ us = pre \<and> rest = us @ z # post"
    then show ?thesis by auto
  qed
qed

lemma retry_event_mem:
  "list_all is_retry_event evs \<Longrightarrow> ev \<in> set evs \<Longrightarrow> is_retry_event ev"
  by (simp add: list_all_iff)

text \<open>
  C7. In the trace of every run, whatever precedes the start of the engine
  holds the successful completion of the locator (with the very binary that is
  started) and of the write of the input; and whatever precedes a read of the
  output holds the successful exit of the engine.
\<close>

theorem convert_stage_order:
  "(\<forall>pre post bin as.
      trace (convert env document format) = pre @ ExecFile bin as # post \<longrightarrow>
      SofficeDone (Inr bin) \<in> set pre \<and> WriteDone None \<in> set pre) \<and>
   (\<forall>pre post p.
      trace (convert env document format) = pre @ ReadFile p # post \<longrightarrow>
      ExecExit None \<in> set pre)"
proof (rule conjI; intro allI impI)
  fix pre post bin as
  assume tr: "trace (convert env document format) = pre @ ExecFile bin as # post"
  then have mem: "ExecFile bin as \<in> set (trace (convert env document format))" by simp
  show "SofficeDone (Inr bin) \<in> set pre \<and> WriteDone None \<in> set pre"
  proof (cases rule: convert_cases [of env document format])
    case (unsupported e)
    with mem show ?thesis by simp
  next
    case (not_found paths e1)
    with mem show ?thesis by (auto split: option.splits if_splits)
  next
    case (write_failed paths bin' e2)
    with mem show ?thesis by (auto split: if_splits)
  next
    case (started paths bin' x evs e r)
    let ?xs = "[DirSync (tempDir_name env), DirSync (installDir_name env)] @ map Access paths @
         [WriteFile (path_join env (tempDir_name env) ''source'') document] @
         (if saveSource_first env then [WriteDone None, SofficeDone (Inr bin')]
          else [SofficeDone (Inr bin'), WriteDone None])"
    from mem started(4,5) have b: "bin = bin'"
      by (auto dest: retry_event_mem split: if_splits)
    have "ExecFile bin as \<notin> set ?xs" by auto
    moreover from tr started(4) have "?xs @
         ([ExecFile bin' (args env (tempDir_name env) (installDir_name env) format), ExecExit x] @ evs @
         [RemoveDir (tempDir_name env), RemoveDir (installDir_name env), Callback e r]) =
         pre @ ExecFile bin as # post" by simp
    ultimately have "set ?xs \<subseteq> set pre" by (rule before_occurrence [rotated])
    with b show ?thesis by auto
  qed
next
  fix pre post p
  assume tr: "trace (convert env document format) = pre @ ReadFile p # post"
  then have mem: "ReadFile p \<in> set (trace (convert env document format))" by simp
  show "ExecExit None \<in> set pre"
  proof (cases rule: convert_cases [of env document format])
    case (unsupported e)
    with mem show ?thesis by simp
  next
    case (not_found paths e1)
    with mem show ?thesis by (auto split: option.splits if_splits)
  next
    case (write_failed paths bin' e2)
    with mem show ?thesis by (auto split: if_splits)
  next
    case (started paths bin' x evs e r)
    let ?xs = "[DirSync (tempDir_name env), DirSync (installDir_name env)] @ map Access paths @
         [WriteFile (path_join env (tempDir_name env) ''source'') document] @
         (if saveSource_first env then [WriteDone None, SofficeDone (Inr bin')]
          else [SofficeDone (Inr bin'), WriteDone None]) @
         [ExecFile bin' (args env (tempDir_name env) (installDir_name env) format), ExecExit x]"
    from mem started(4) have "ReadFile p \<in> set evs" by (auto split: if_splits)
    with started(6) have x: "x = None" by auto
    have "ReadFile p \<notin> set ?xs" by auto
    moreover from tr started(4) have "?xs @
         (evs @ [RemoveDir (tempDir_name env), RemoveDir (installDir_name env), Callback e r]) =
         pre @ ReadFile p # post" by simp
    ultimately have "set ?xs \<subseteq> set pre" by (rule before_occurrence [rotated])
    with x show ?thesis by auto
  qed
qed

theorem convert_stage_order_witness:
  "trace (convert env_linux ''hello'' ''.pdf'') =
     [DirSync ''/tmp/libreofficeConvert_1'', DirSync ''/tmp/soffice_2'',
      Access ''/usr/bin/libreoffice'', Access ''/usr/bin/libreoffice'',
      Access ''/usr/bin/soffice'', Access ''/snap/bin/libreoffice'',
      WriteFile ''/tmp/libreofficeConvert_1/source'' ''hello'',
      SofficeDone (Inr ''/usr/bin/soffice''), WriteDone None,
      ExecFile ''/usr/bin/soffice''
        [''-env:UserInstallation=file:///tmp/soffice_2'', ''--headless'', ''--convert-to'', ''.pdf'',
         ''--outdir'', ''/tmp/libreofficeConvert_1'', ''/tmp/libreofficeConvert_1/source''],
      ExecExit None, ReadFile ''/tmp/libreofficeConvert_1/source..pdf'',
      RemoveDir ''/tmp/libreofficeConvert_1'', RemoveDir ''/tmp/soffice_2'',
      Callback None (Some ''PDF-OK'')] \<and>
   SofficeDone (Inr ''/usr/bin/soffice'') \<in> set
     [DirSync ''/tmp/libreofficeConvert_1'', DirSync ''/tmp/soffice_2'',
      Access ''/usr/bin/libreoffice'', Access ''/usr/bin/libreoffice'',
      Access ''/usr/bin/soffice'', Access ''/snap/bin/libreoffice'',
      WriteFile ''/tmp/libreofficeConvert_1/source'' ''hello'',
      SofficeDone (Inr ''/usr/bin/soffice''), WriteDone None] \<and>
   ExecExit None \<in> set
     [DirSync ''/tmp/libreofficeConvert_1'', DirSync ''/tmp/soffice_2'',
      Access ''/usr/bin/libreoffice'', Access ''/usr/bin/libreoffice'',
      Access ''/usr/bin/soffice'', Access ''/snap/bin/libreoffice'',
      WriteFile ''/tmp/libreofficeConvert_1/source'' ''hello'',
      SofficeDone (Inr ''/usr/bin/soffice''), WriteDone None,
      ExecFile ''/usr/bin/soffice''
        [''-env:UserInstallation=file:///tmp/soffice_2'', ''--headless'', ''--convert-to'', ''.pdf'',
         ''--outdir'', ''/tmp/libreofficeConvert_1'', ''/tmp/libreofficeConvert_1/source''],
      ExecExit None]"
proof -
  let ?pre1 = "[DirSync ''/tmp/libreofficeConvert_1'', DirSync ''/tmp/soffice_2'',
      Access ''/usr/bin/libreoffice'', Access ''/usr/bin/libreoffice'',
      Access ''/usr/bin/soffice'', Access ''/snap/bin/libreoffice'',
      WriteFile ''/tmp/libreofficeConvert_1/source'' ''hello'',
      SofficeDone (Inr ''/usr/bin/soffice''), WriteDone None]"
  let ?exec = "ExecFile ''/usr/bin/soffice''
        [''-env:UserInstallation=file:///tmp/soffice_2'', ''--headless'', ''--convert-to'', ''.pdf'',
         ''--outdir'', ''/tmp/libreofficeConvert_1'', ''/tmp/libreofficeConvert_1/source'']"
  let ?post2 = "[RemoveDir ''/tmp/libreofficeConvert_1'', RemoveDir ''/tmp/soffice_2'',
      Callback None (Some ''PDF-OK'')]"
  have t: "trace (convert env_linux ''hello'' ''.pdf'') =
      ?pre1 @ [?exec, ExecExit None, ReadFile ''/tmp/libreofficeConvert_1/source..pdf''] @ ?post2"
    by code_simp
  then have t1: "trace (convert env_linux ''hello'' ''.pdf'') =
      ?pre1 @ ?exec # ([ExecExit None, ReadFile ''/tmp/libreofficeConvert_1/source..pdf''] @ ?post2)"
    and t2: "trace (convert env_linux ''hello'' ''.pdf'') =
      (?pre1 @ [?exec, ExecExit None]) @ ReadFile ''/tmp/libreofficeConvert_1/source..pdf'' # ?post2"
    by simp_all
  note order = convert_stage_order [of env_linux "''hello''" "''.pdf''"]
  from order have "\<forall>pre post bin as.
      trace (convert env_linux ''hello'' ''.pdf'') = pre @ ExecFile bin as # post \<longrightarrow>
      SofficeDone (Inr bin) \<in> set pre \<and> WriteDone None \<in> set pre" by blast
  from this [rule_format, OF t1] have a: "SofficeDone (Inr ''/usr/bin/soffice'') \<in> set ?pre1" by blast
  from order have "\<forall>pre post p.
      trace (convert env_linux ''hello'' ''.pdf'') = pre @ ReadFile p # post \<longrightarrow>
      ExecExit None \<in> set pre" by blast
  from this [rule_format, OF t2] have b: "ExecExit None \<in> set (?pre1 @ [?exec, ExecExit None])" .
  from t a b show ?thesis by simp
qed

section \<open>\<^verbatim>\<open>async.retry\<close> with three attempts\<close>

lemma retry_three:
  "retry 3 i task s =
     (case task s of
        (Inr v, s1) \<Rightarrow> (Inr v, s1)
      | (Inl e, s1) \<Rightarrow>
          (case task (log [SetTimeout i] s1) of
             (Inr v, s2) \<Rightarrow> (Inr v, s2)
           | (Inl e, s2) \<Rightarrow> task (log [SetTimeout i] s2)))"
proof -
  have three: "retryAttempt 3 i task 3 s' = task s'" for s'
    by (simp add: retryAttempt.simps [of 3 i task 3 s'] split: prod.splits sum.splits)
  have two: "retryAttempt 3 i task 2 s' =
      (case task s' of (Inr v, s2) \<Rightarrow> (Inr v, s2)
       | (Inl e, s2) \<Rightarrow> task (log [SetTimeout i] s2))" for s'
    using three by (simp add: retryAttempt.simps [of 3 i task 2 s'] eval_nat_numeral
        split: prod.splits sum.splits)
  show ?thesis
    using two
    by (simp add: retry_def retryAttempt.simps [of 3 i task 1 s] eval_nat_numeral
        split: prod.splits sum.splits)
qed

lemma attempt_events_unfold:
  "attempt_events i p 1 = [ReadFile p]"
  "attempt_events i p 2 = [ReadFile p, SetTimeout i, ReadFile p]"
  "attempt_events i p 3 = [ReadFile p, SetTimeout i, ReadFile p, SetTimeout i, ReadFile p]"
  by (simp_all add: numeral_2_eq_2 numeral_3_eq_3)

lemma add_three: "n + 3 = Suc (Suc (Suc n))"
  by simp

lemma retry_attempts:
  "(1 \<le> k \<and> k \<le> 3 \<and> files s p = Some b \<and>
      (\<forall>j. 1 \<le> j \<and> j < k \<longrightarrow> readFile_err env (reads s + j) \<noteq> None) \<and>
      readFile_err env (reads s + k) = None \<longrightarrow>
      (\<exists>s'. retry 3 200 (readFile env p) s = (Inr b, s') \<and>
            reads s' = reads s + k \<and> trace s' = trace s @ attempt_events 200 p k)) \<and>
   (files s p = None \<or> (\<forall>j. 1 \<le> j \<and> j \<le> 3 \<longrightarrow> readFile_err env (reads s + j) \<noteq> None) \<longrightarrow>
      (\<exists>e s'. retry 3 200 (readFile env p) s = (Inl e, s') \<and>
            reads s' = reads s + 3 \<and> trace s' = trace s @ attempt_events 200 p 3))"
proof (rule conjI; rule impI)
  assume h: "1 \<le> k \<and> k \<le> 3 \<and> files s p = Some b \<and>
      (\<forall>j. 1 \<le> j \<and> j < k \<longrightarrow> readFile_err env (reads s + j) \<noteq> None) \<and>
      readFile_err env (reads s + k) = None"
  then have fails: "readFile_err env (reads s + j) \<noteq> None" if "1 \<le> j" "j < k" for j
    using that by blast
  from h have ok: "readFile_err env (reads s + k) = None" and b: "files s p = Some b" by simp_all
  from h consider "k = 1" | "k = 2" | "k = 3" by linarith
  then show "\<exists>s'. retry 3 200 (readFile env p) s = (Inr b, s') \<and>
            reads s' = reads s + k \<and> trace s' = trace s @ attempt_events 200 p k"
  proof cases
    case 1
    with ok b show ?thesis
      by (simp add: retry_three readFile_def Let_def attempt_events_unfold)
  next
    case 2
    from fails [of 1] 2 have "readFile_err env (Suc (reads s)) \<noteq> None" by simp
    moreover from ok 2 have "readFile_err env (Suc (Suc (reads s))) = None" by simp
    ultimately show ?thesis using 2 b
      by (auto simp add: retry_three readFile_def Let_def attempt_events_unfold split: option.splits)
  next
    case 3
    from fails [of 1] 3 have "readFile_err env (Suc (reads s)) \<noteq> None" by simp
    moreover from fails [of 2] 3 have "readFile_err env (Suc (Suc (reads s))) \<noteq> None" by simp
    moreover from ok 3 have "readFile_err env (Suc (Suc (Suc (reads s)))) = None"
      by (simp add: add_three)
    ultimately show ?thesis using 3 b
      by (auto simp add: retry_three readFile_def Let_def attempt_events_unfold add_three
          split: option.splits)
  qed
next
  assume h: "files s p = None \<or> (\<forall>j. 1 \<le> j \<and> j \<le> 3 \<longrightarrow> readFile_err env (reads s + j) \<noteq> None)"
  then have "files s p = None \<or>
     (readFile_err env (reads s + 1) \<noteq> None \<and> readFile_err env (reads s + 2) \<noteq> None \<and>
      readFile_err env (reads s + 3) \<noteq> None)"
  proof
    assume "files s p = None"
    then show ?thesis by simp
  next
    assume a: "\<forall>j. 1 \<le> j \<and> j \<le> 3 \<longrightarrow> readFile_err env (reads s + j) \<noteq> None"
    from a [rule_format, of 1] a [rule_format, of 2] a [rule_format, of 3] show ?thesis by simp
  qed
  then have "files s p = None \<or>
     (readFile_err env (Suc (reads s)) \<noteq> None \<and> readFile_err env (Suc (Suc (reads s))) \<noteq> None \<and>
      readFile_err env (Suc (Suc (Suc (reads s)))) \<noteq> None)" by (simp add: add_three)
  then show "\<exists>e s'. retry 3 200 (readFile env p) s = (Inl e, s') \<and>
            reads s' = reads s + 3 \<and> trace s' = trace s @ attempt_events 200 p 3"
    by (auto simp add: retry_three readFile_def Let_def attempt_events_unfold add_three
        split: option.splits)
qed

section \<open>The output file\<close>

text \<open>
  C2, as stated, fails: for the format \<^verbatim>\<open>.pdf\<close> the file that is read is
  \<^verbatim>\<open>source..pdf\<close>, the dot of the format being kept; with an engine that
  exits 0 and writes \<^verbatim>\<open>source.pdf\<close> the run answers with an error.
\<close>

theorem destination_counterexample:
  "fst (execFile env_pdf ''/usr/bin/soffice'' [] Map.empty) = None \<and>
   snd (execFile env_pdf ''/usr/bin/soffice'' [] Map.empty) ''/tmp/libreofficeConvert_1/source.pdf'' =
     Some ''PDF-OK'' \<and>
   destination env_pdf ''/tmp/libreofficeConvert_1'' ''.pdf'' = ''/tmp/libreofficeConvert_1/source..pdf'' \<and>
   destination env_pdf ''/tmp/libreofficeConvert_1'' ''.pdf'' \<noteq>
     path_join env_pdf ''/tmp/libreofficeConvert_1'' ''source.pdf'' \<and>
   callbacks (trace (convert env_pdf ''hello'' ''.pdf'')) =
     [(Some (Error (''ENOENT: no such file or directory, open '' @ [CHR 0x27] @
         ''/tmp/libreofficeConvert_1/source..pdf'' @ [CHR 0x27])), None)]"
  by code_simp

lemma split_chr_nonempty: "split_chr c s \<noteq> []"
  by (induction s) (simp_all split: list.splits)

lemma first_elem_split: "first_elem (split_chr c s) = takeWhile (\<lambda>x. x \<noteq> c) s"
proof (induction s)
  case Nil
  show ?case by (simp add: first_elem_def)
next
  case (Cons x xs)
  then show ?case
    using split_chr_nonempty [of c xs]
    by (cases "split_chr c xs") (simp_all add: first_elem_def)
qed

lemma retry_success:
  assumes "files s p = Some b" "1 \<le> k" "k \<le> 3" "readFile_err env (reads s + k) = None"
  shows "fst (retry 3 200 (readFile env p) s) = Inr b"
proof -
  from assms(2,3) consider "k = 1" | "k = 2" | "k = 3" by linarith
  then have "readFile_err env (Suc (reads s)) = None \<or>
      readFile_err env (Suc (Suc (reads s))) = None \<or>
      readFile_err env (Suc (Suc (Suc (reads s)))) = None"
    using assms(4) by cases (simp_all add: add_three)
  with assms(1) show ?thesis
    by (auto simp add: retry_three readFile_def Let_def split: option.splits)
qed

lemma loadDestination_success:
  assumes "\<not> finished s" "files s (destination env t f) = Some out"
    "1 \<le> k" "k \<le> 3" "readFile_err env (reads s + k) = None"
  shows "Callback None (Some out) \<in> set (trace (loadDestination env t i f res s))"
proof -
  obtain r s' where rt: "retry 3 200 (readFile env (destination env t f)) s = (r, s')"
    by (cases "retry 3 200 (readFile env (destination env t f)) s")
  from retry_success [OF assms(2-5)] rt have r: "r = Inr out" by simp
  from retryAttempt_frame [OF rt [unfolded retry_def]] assms(1) have "\<not> finished s'" by simp
  then show ?thesis
    by (simp add: loadDestination_def rt r finalCallback_def Let_def)
qed

lemma convert_task_success:
  assumes "\<not> finished s"
    "fst (execFile env bin (args env t i f) (files s)) = None"
    "snd (execFile env bin (args env t i f) (files s)) (destination env t f) = Some out"
    "1 \<le> k" "k \<le> 3" "readFile_err env (reads s + k) = None"
  shows "Callback None (Some out) \<in>
    set (trace (convert_task env t i f \<lparr>r_soffice = Some bin, r_loadDestination = ld\<rparr> s))"
proof -
  obtain x fs where ex: "execFile env bin (args env t i f) (files s) = (x, fs)"
    by (cases "execFile env bin (args env t i f) (files s)")
  with assms(2,3) have x: "x = None" and fs: "fs (destination env t f) = Some out" by simp_all
  let ?s2 = "log [ExecExit None] ((log [ExecFile bin (args env t i f)] s)\<lparr>files := fs\<rparr>)"
  have "\<not> finished ?s2" "files ?s2 (destination env t f) = Some out"
    "readFile_err env (reads ?s2 + k) = None"
    using assms(1,6) fs by simp_all
  from loadDestination_success [OF this(1,2) assms(4,5) this(3)]
  show ?thesis by (simp add: convert_task_def Let_def ex x)
qed

lemma callbacks_append [simp]: "callbacks (xs @ ys) = callbacks xs @ callbacks ys"
  by (induction xs rule: callbacks.induct) simp_all

lemma callbacks_map_Access [simp]: "callbacks (map Access ps) = []"
  by (induction ps) simp_all

lemma callbacks_retry: "list_all is_retry_event evs \<Longrightarrow> callbacks evs = []"
proof (induction evs)
  case Nil
  show ?case by simp
next
  case (Cons ev evs)
  then show ?case by (cases ev) simp_all
qed

lemma callbacks_mem: "Callback e r \<in> set tr \<Longrightarrow> (e, r) \<in> set (callbacks tr)"
  by (induction tr rule: callbacks.induct) auto

lemma convert_one_callback: "\<exists>e r. callbacks (trace (convert env doc fmt)) = [(e, r)]"
  by (cases rule: convert_cases [of env doc fmt])
     (simp_all add: callbacks_retry split: option.splits)

text \<open>
  C2, amended. The file that is read is \<^verbatim>\<open>source.\<close> followed by the target
  format up to its first colon, the leading dot kept, joined to the staging
  directory. When the binary is found, the input is written, the engine exits
  without error and leaves bytes in that file, and one of the three reads is
  not hit by an error, the run answers exactly once, without error and with
  those bytes.
\<close>

theorem destination_and_success:
  "destination env tempDir format =
     path_join env tempDir (''source.'' @ takeWhile (\<lambda>c. c \<noteq> CHR '':'') format) \<and>
   (soffice env = Inr bin \<and> writeFile_err env = None \<and>
    fst (execFile env bin (args env (tempDir_name env) (installDir_name env) format)
          ((disk env)(path_join env (tempDir_name env) ''source'' \<mapsto> document))) = None \<and>
    snd (execFile env bin (args env (tempDir_name env) (installDir_name env) format)
          ((disk env)(path_join env (tempDir_name env) ''source'' \<mapsto> document)))
      (destination env (tempDir_name env) format) = Some out \<and>
    1 \<le> k \<and> k \<le> 3 \<and> readFile_err env k = None \<longrightarrow>
    callbacks (trace (convert env document format)) = [(None, Some out)])"
proof (rule conjI)
  show "destination env tempDir format =
     path_join env tempDir (''source.'' @ takeWhile (\<lambda>c. c \<noteq> CHR '':'') format)"
    by (simp add: destination_def first_elem_split)
next
  let ?t = "tempDir_name env" and ?i = "installDir_name env"
  let ?src = "path_join env ?t ''source''"
  show "soffice env = Inr bin \<and> writeFile_err env = None \<and>
    fst (execFile env bin (args env ?t ?i format) ((disk env)(?src \<mapsto> document))) = None \<and>
    snd (execFile env bin (args env ?t ?i format) ((disk env)(?src \<mapsto> document)))
      (destination env ?t format) = Some out \<and>
    1 \<le> k \<and> k \<le> 3 \<and> readFile_err env k = None \<longrightarrow>
    callbacks (trace (convert env document format)) = [(None, Some out)]"
  proof
    assume h: "soffice env = Inr bin \<and> writeFile_err env = None \<and>
      fst (execFile env bin (args env ?t ?i format) ((disk env)(?src \<mapsto> document))) = None \<and>
      snd (execFile env bin (args env ?t ?i format) ((disk env)(?src \<mapsto> document)))
        (destination env ?t format) = Some out \<and>
      1 \<le> k \<and> k \<le> 3 \<and> readFile_err env k = None"
    then obtain paths where c: "candidates env = Inr paths"
      and f: "soffice_found env paths = Inr bin"
      by (auto simp: soffice_def split: sum.splits)
    from h have w: "writeFile_err env = None" by simp
    let ?s0 = "dirSync ?i (dirSync ?t \<lparr>files = disk env, dirs = [], reads = 0, finished = False, trace = []\<rparr>)"
    let ?s1 = "log (map Access paths) ?s0"
    let ?s2 = "log [WriteFile ?src document] (?s1\<lparr>files := (files ?s1)(?src \<mapsto> document)\<rparr>)"
    let ?ds = "if saveSource_first env then [WriteDone None, SofficeDone (Inr bin)]
        else [SofficeDone (Inr bin), WriteDone None]"
    have eq: "convert env document format =
        convert_task env ?t ?i format \<lparr>r_soffice = Some bin, r_loadDestination = None\<rparr> (log ?ds ?s2)"
      using c f w by (simp add: convert_def Let_def)
    have st: "\<not> finished (log ?ds ?s2)" "files (log ?ds ?s2) = (disk env)(?src \<mapsto> document)"
      "reads (log ?ds ?s2) = 0"
      by (simp_all add: dirSync_def)
    from h have "Callback None (Some out) \<in> set (trace (convert env document format))"
      unfolding eq
      by (intro convert_task_success [where k = k]) (simp_all add: dirSync_def)
    then have "(None, Some out) \<in> set (callbacks (trace (convert env document format)))"
      by (rule callbacks_mem)
    with convert_one_callback [of env document format]
    show "callbacks (trace (convert env document format)) = [(None, Some out)]" by auto
  qed
qed

theorem destination_and_success_witness:
  "destination env_linux ''/tmp/libreofficeConvert_1'' ''.pdf:writer_pdf_Export'' =
     ''/tmp/libreofficeConvert_1/source..pdf'' \<and>
   soffice env_linux = Inr ''/usr/bin/soffice'' \<and>
   snd (execFile env_linux ''/usr/bin/soffice'' [] Map.empty) ''/tmp/libreofficeConvert_1/source..pdf'' =
     Some ''PDF-OK'' \<and>
   callbacks (trace (convert env_linux ''hello'' ''.pdf'')) = [(None, Some ''PDF-OK'')]"
proof -
  have d: "path_join env_linux ''/tmp/libreofficeConvert_1''
      (''source.'' @ takeWhile (\<lambda>c. c \<noteq> CHR '':'') ''.pdf:writer_pdf_Export'') =
      ''/tmp/libreofficeConvert_1/source..pdf''"
    by code_simp
  have s: "soffice env_linux = Inr ''/usr/bin/soffice''" by code_simp
  have e: "snd (execFile env_linux ''/usr/bin/soffice'' [] Map.empty)
      ''/tmp/libreofficeConvert_1/source..pdf'' = Some ''PDF-OK''"
    by (simp add: env_linux_def)
  have h: "soffice env_linux = Inr ''/usr/bin/soffice'' \<and> writeFile_err env_linux = None \<and>
    fst (execFile env_linux ''/usr/bin/soffice''
          (args env_linux (tempDir_name env_linux) (installDir_name env_linux) ''.pdf'')
          ((disk env_linux)(path_join env_linux (tempDir_name env_linux) ''source'' \<mapsto> ''hello''))) = None \<and>
    snd (execFile env_linux ''/usr/bin/soffice''
          (args env_linux (tempDir_name env_linux) (installDir_name env_linux) ''.pdf'')
          ((disk env_linux)(path_join env_linux (tempDir_name env_linux) ''source'' \<mapsto> ''hello'')))
      (destination env_linux (tempDir_name env_linux) ''.pdf'') = Some ''PDF-OK'' \<and>
    1 \<le> (1::nat) \<and> (1::nat) \<le> 3 \<and> readFile_err env_linux 1 = None"
    by code_simp
  from destination_and_success [of env_linux "''/tmp/libreofficeConvert_1''" "''.pdf:writer_pdf_Export''"
      "''/usr/bin/soffice''" "''hello''" "''PDF-OK''" 1] d
  have 1: "destination env_linux ''/tmp/libreofficeConvert_1'' ''.pdf:writer_pdf_Export'' =
     ''/tmp/libreofficeConvert_1/source..pdf''" by simp
  from destination_and_success [of env_linux "''/tmp/libreofficeConvert_1''" "''.pdf''"
      "''/usr/bin/soffice''" "''hello''" "''PDF-OK''" 1] h
  have 2: "callbacks (trace (convert env_linux ''hello'' ''.pdf'')) = [(None, Some ''PDF-OK'')]"
    by blast
  from 1 s e 2 show ?thesis by blast
qed

section \<open>The attempts of the output retriever\<close>

lemma filter_retry_attempts [simp]:
  "filter is_retry_event (attempt_events i p k) = attempt_events i p k"
  by (induction i p k rule: attempt_events.induct) simp_all

lemma filter_retry_Access [simp]: "filter is_retry_event (map Access ps) = []"
  by (induction ps) simp_all

lemma callbacks_attempts [simp]: "callbacks (attempt_events i p k) = []"
  by (induction i p k rule: attempt_events.induct) simp_all

lemma reads_finalCallback [simp]: "reads (finalCallback t i err res s) = reads s"
  by (simp add: finalCallback_def Let_def split: option.splits)

lemma reads_retry:
  "reads (snd (retry 3 i (readFile env p) s)) \<le> reads s + 3"
  by (simp add: retry_three readFile_def Let_def split: option.splits)

lemma reads_loadDestination: "reads (loadDestination env t i f res s) \<le> reads s + 3"
  using reads_retry [of i env "destination env t f" s for i]
  by (simp add: loadDestination_def split: prod.splits sum.splits) (metis snd_conv)

lemma reads_convert_task: "reads (convert_task env t i f res s) \<le> reads s + 3"
proof -
  have "reads (loadDestination env t i f res s') \<le> reads s + 3" if "reads s' = reads s" for s'
    using reads_loadDestination [of env t i f res s'] that by simp
  then show ?thesis
    by (simp add: convert_task_def Let_def split: prod.splits option.splits)
qed

lemma reads_convert: "reads (convert env doc fmt) \<le> 3"
proof -
  have "reads (convert_task env (tempDir_name env) (installDir_name env) fmt res s') \<le> 3"
    if "reads s' = 0" for res s'
    using reads_convert_task [of env "tempDir_name env" "installDir_name env" fmt res s'] that
    by simp
  then show ?thesis
    by (simp add: convert_def Let_def dirSync_def split: sum.splits option.splits)
qed


lemma loadDestination_succeeds:
  assumes "\<not> finished s" "1 \<le> k" "k \<le> 3" "files s (destination env t f) = Some b"
    "\<forall>j. 1 \<le> j \<and> j < k \<longrightarrow> readFile_err env (reads s + j) \<noteq> None"
    "readFile_err env (reads s + k) = None"
  shows "trace (loadDestination env t i f res s) =
           trace s @ attempt_events 200 (destination env t f) k @
           [RemoveDir t, RemoveDir i, Callback None (Some b)] \<and>
         reads (loadDestination env t i f res s) = reads s + k"
proof -
  let ?p = "destination env t f"
  from retry_attempts [of k s ?p b env] assms(2-6) obtain s' where
    rt: "retry 3 200 (readFile env ?p) s = (Inr b, s')" and r: "reads s' = reads s + k"
    and tr: "trace s' = trace s @ attempt_events 200 ?p k" by blast
  from retryAttempt_frame [OF rt [unfolded retry_def]] assms(1) have "\<not> finished s'" by simp
  then show ?thesis
    by (simp add: loadDestination_def rt finalCallback_def Let_def r tr)
qed

lemma loadDestination_gives_up:
  assumes "\<not> finished s"
    "files s (destination env t f) = None \<or>
     (\<forall>j. 1 \<le> j \<and> j \<le> 3 \<longrightarrow> readFile_err env (reads s + j) \<noteq> None)"
  shows "\<exists>e. trace (loadDestination env t i f res s) =
           trace s @ attempt_events 200 (destination env t f) 3 @
           [RemoveDir t, RemoveDir i, Callback (Some e) None] \<and>
         reads (loadDestination env t i f res s) = reads s + 3"
proof -
  let ?p = "destination env t f"
  from retry_attempts [of 0 s ?p "[]" env] assms(2) obtain e s' where
    rt: "retry 3 200 (readFile env ?p) s = (Inl e, s')" and r: "reads s' = reads s + 3"
    and tr: "trace s' = trace s @ attempt_events 200 ?p 3" by blast
  from retryAttempt_frame [OF rt [unfolded retry_def]] assms(1) have "\<not> finished s'" by simp
  then show ?thesis
    by (simp add: loadDestination_def rt finalCallback_def Let_def r tr)
qed

lemma convert_reaches_loadDestination:
  assumes "soffice env = Inr bin" "writeFile_err env = None"
    "fst (execFile env bin (args env (tempDir_name env) (installDir_name env) fmt)
          ((disk env)(path_join env (tempDir_name env) ''source'' \<mapsto> doc))) = None"
  shows "\<exists>s. convert env doc fmt =
           loadDestination env (tempDir_name env) (installDir_name env) fmt
             \<lparr>r_soffice = Some bin, r_loadDestination = None\<rparr> s \<and>
         \<not> finished s \<and> reads s = 0 \<and>
         files s = snd (execFile env bin (args env (tempDir_name env) (installDir_name env) fmt)
                     ((disk env)(path_join env (tempDir_name env) ''source'' \<mapsto> doc))) \<and>
         filter is_retry_event (trace s) = [] \<and> callbacks (trace s) = []"
proof -
  let ?t = "tempDir_name env" and ?i = "installDir_name env"
  let ?src = "path_join env ?t ''source''"
  let ?res = "\<lparr>r_soffice = Some bin, r_loadDestination = None\<rparr>"
  from assms(1) obtain paths where c: "candidates env = Inr paths"
    and f: "soffice_found env paths = Inr bin"
    by (auto simp: soffice_def split: sum.splits)
  let ?s0 = "dirSync ?i (dirSync ?t \<lparr>files = disk env, dirs = [], reads = 0, finished = False, trace = []\<rparr>)"
  let ?s1 = "log (map Access paths) ?s0"
  let ?s2 = "log [WriteFile ?src doc] (?s1\<lparr>files := (files ?s1)(?src \<mapsto> doc)\<rparr>)"
  let ?ds = "if saveSource_first env then [WriteDone None, SofficeDone (Inr bin)]
      else [SofficeDone (Inr bin), WriteDone None]"
  let ?s3 = "log ?ds ?s2"
  have eq: "convert env doc fmt = convert_task env ?t ?i fmt ?res ?s3"
    using c f assms(2) by (simp add: convert_def Let_def)
  have fs: "files ?s3 = (disk env)(?src \<mapsto> doc)" by (simp add: dirSync_def)
  obtain x fs' where ex: "execFile env bin (args env ?t ?i fmt) ((disk env)(?src \<mapsto> doc)) = (x, fs')"
    by (cases "execFile env bin (args env ?t ?i fmt) ((disk env)(?src \<mapsto> doc))")
  with assms(3) have x: "x = None" by simp
  let ?s4 = "log [ExecExit None] ((log [ExecFile bin (args env ?t ?i fmt)] ?s3)\<lparr>files := fs'\<rparr>)"
  have "convert env doc fmt = loadDestination env ?t ?i fmt ?res ?s4"
    unfolding eq using fs by (simp add: convert_task_def Let_def ex x dirSync_def)
  moreover have "\<not> finished ?s4" "reads ?s4 = 0" "files ?s4 = fs'"
    "filter is_retry_event (trace ?s4) = []" "callbacks (trace ?s4) = []"
    by (simp_all add: dirSync_def)
  ultimately show ?thesis unfolding ex by (intro exI [of _ ?s4]) simp
qed

text \<open>
  C6. The output retriever \<^verbatim>\<open>loadDestination\<close> reads at most 3 times, with a
  timeout of 200 ms between two reads. Started in a state where the final
  callback has not run: when the file is there and the k-th read (k at most 3)
  is the first that no error hits, it makes exactly k reads and k - 1 timeouts,
  then tears down and answers with the file's bytes; when the file is missing
  or each of the three reads fails, it makes exactly 3 reads and 2 timeouts,
  then tears down and answers with an error. The same holds for a whole run of
  \<^verbatim>\<open>convert\<close> whose engine has exited without error, and no run makes more
  than 3 reads.
\<close>

theorem loadDestination_attempts:
  "(\<not> finished s \<and> 1 \<le> k \<and> k \<le> 3 \<and> files s (destination env t f) = Some b \<and>
      (\<forall>j. 1 \<le> j \<and> j < k \<longrightarrow> readFile_err env (reads s + j) \<noteq> None) \<and>
      readFile_err env (reads s + k) = None \<longrightarrow>
      trace (loadDestination env t i f res s) =
        trace s @ attempt_events 200 (destination env t f) k @
        [RemoveDir t, RemoveDir i, Callback None (Some b)] \<and>
      reads (loadDestination env t i f res s) = reads s + k) \<and>
   (\<not> finished s \<and>
      (files s (destination env t f) = None \<or>
       (\<forall>j. 1 \<le> j \<and> j \<le> 3 \<longrightarrow> readFile_err env (reads s + j) \<noteq> None)) \<longrightarrow>
      (\<exists>e. trace (loadDestination env t i f res s) =
         trace s @ attempt_events 200 (destination env t f) 3 @
         [RemoveDir t, RemoveDir i, Callback (Some e) None] \<and>
       reads (loadDestination env t i f res s) = reads s + 3)) \<and>
   reads (convert env document format) \<le> 3 \<and>
   (soffice env = Inr bin \<and> writeFile_err env = None \<and>
    fst (execFile env bin (args env (tempDir_name env) (installDir_name env) format)
          ((disk env)(path_join env (tempDir_name env) ''source'' \<mapsto> document))) = None \<longrightarrow>
      (1 \<le> k \<and> k \<le> 3 \<and>
       snd (execFile env bin (args env (tempDir_name env) (installDir_name env) format)
             ((disk env)(path_join env (tempDir_name env) ''source'' \<mapsto> document)))
         (destination env (tempDir_name env) format) = Some b \<and>
       (\<forall>j. 1 \<le> j \<and> j < k \<longrightarrow> readFile_err env j \<noteq> None) \<and> readFile_err env k = None \<longrightarrow>
         filter is_retry_event (trace (convert env document format)) =
           attempt_events 200 (destination env (tempDir_name env) format) k \<and>
         reads (convert env document format) = k \<and>
         callbacks (trace (convert env document format)) = [(None, Some b)]) \<and>
      (snd (execFile env bin (args env (tempDir_name env) (installDir_name env) format)
             ((disk env)(path_join env (tempDir_name env) ''source'' \<mapsto> document)))
         (destination env (tempDir_name env) format) = None \<or>
       (\<forall>j. 1 \<le> j \<and> j \<le> 3 \<longrightarrow> readFile_err env j \<noteq> None) \<longrightarrow>
         filter is_retry_event (trace (convert env document format)) =
           attempt_events 200 (destination env (tempDir_name env) format) 3 \<and>
         reads (convert env document format) = 3 \<and>
         (\<exists>e. callbacks (trace (convert env document format)) = [(Some e, None)])))"
proof (intro conjI impI)
  assume "\<not> finished s \<and> 1 \<le> k \<and> k \<le> 3 \<and> files s (destination env t f) = Some b \<and>
      (\<forall>j. 1 \<le> j \<and> j < k \<longrightarrow> readFile_err env (reads s + j) \<noteq> None) \<and>
      readFile_err env (reads s + k) = None"
  then have h: "\<not> finished s" "1 \<le> k" "k \<le> 3" "files s (destination env t f) = Some b"
    "\<forall>j. 1 \<le> j \<and> j < k \<longrightarrow> readFile_err env (reads s + j) \<noteq> None"
    "readFile_err env (reads s + k) = None" by blast+
  from loadDestination_succeeds [OF h, where i = i and res = res]
  show "trace (loadDestination env t i f res s) =
        trace s @ attempt_events 200 (destination env t f) k @
        [RemoveDir t, RemoveDir i, Callback None (Some b)]"
    and "reads (loadDestination env t i f res s) = reads s + k" by blast+
next
  assume "\<not> finished s \<and>
      (files s (destination env t f) = None \<or>
       (\<forall>j. 1 \<le> j \<and> j \<le> 3 \<longrightarrow> readFile_err env (reads s + j) \<noteq> None))"
  then have h: "\<not> finished s" "files s (destination env t f) = None \<or>
       (\<forall>j. 1 \<le> j \<and> j \<le> 3 \<longrightarrow> readFile_err env (reads s + j) \<noteq> None)" by blast+
  from loadDestination_gives_up [OF h, where i = i and res = res]
  show "\<exists>e. trace (loadDestination env t i f res s) =
         trace s @ attempt_events 200 (destination env t f) 3 @
         [RemoveDir t, RemoveDir i, Callback (Some e) None] \<and>
       reads (loadDestination env t i f res s) = reads s + 3" .
next
  show "reads (convert env document format) \<le> 3" by (rule reads_convert)
next
  let ?t = "tempDir_name env" and ?i = "installDir_name env"
  let ?fs = "snd (execFile env bin (args env ?t ?i format)
      ((disk env)(path_join env ?t ''source'' \<mapsto> document)))"
  assume "soffice env = Inr bin \<and> writeFile_err env = None \<and>
    fst (execFile env bin (args env ?t ?i format)
          ((disk env)(path_join env ?t ''source'' \<mapsto> document))) = None"
  then have "soffice env = Inr bin" "writeFile_err env = None"
    "fst (execFile env bin (args env ?t ?i format)
          ((disk env)(path_join env ?t ''source'' \<mapsto> document))) = None" by blast+
  from convert_reaches_loadDestination [OF this] obtain s0 where
    eq: "convert env document format =
      loadDestination env ?t ?i format \<lparr>r_soffice = Some bin, r_loadDestination = None\<rparr> s0"
    and s0: "\<not> finished s0" "reads s0 = 0" "files s0 = ?fs"
      "filter is_retry_event (trace s0) = []" "callbacks (trace s0) = []" by blast
  {
    assume "1 \<le> k \<and> k \<le> 3 \<and> ?fs (destination env ?t format) = Some b \<and>
       (\<forall>j. 1 \<le> j \<and> j < k \<longrightarrow> readFile_err env j \<noteq> None) \<and> readFile_err env k = None"
    with s0 have h: "\<not> finished s0" "1 \<le> k" "k \<le> 3" "files s0 (destination env ?t format) = Some b"
      "\<forall>j. 1 \<le> j \<and> j < k \<longrightarrow> readFile_err env (reads s0 + j) \<noteq> None"
      "readFile_err env (reads s0 + k) = None" by simp_all
    from loadDestination_succeeds [OF h, where i = ?i
        and res = "\<lparr>r_soffice = Some bin, r_loadDestination = None\<rparr>"]
    show "filter is_retry_event (trace (convert env document format)) =
           attempt_events 200 (destination env ?t format) k"
      and "reads (convert env document format) = k"
      and "callbacks (trace (convert env document format)) = [(None, Some b)]"
      unfolding eq using s0 by simp_all
  }
  {
    assume "?fs (destination env ?t format) = None \<or>
       (\<forall>j. 1 \<le> j \<and> j \<le> 3 \<longrightarrow> readFile_err env j \<noteq> None)"
    with s0 have h: "\<not> finished s0" "files s0 (destination env ?t format) = None \<or>
       (\<forall>j. 1 \<le> j \<and> j \<le> 3 \<longrightarrow> readFile_err env (reads s0 + j) \<noteq> None)" by simp_all
    from loadDestination_gives_up [OF h, where i = ?i
        and res = "\<lparr>r_soffice = Some bin, r_loadDestination = None\<rparr>"]
    obtain e where e: "trace (loadDestination env ?t ?i format
          \<lparr>r_soffice = Some bin, r_loadDestination = None\<rparr> s0) =
         trace s0 @ attempt_events 200 (destination env ?t format) 3 @
         [RemoveDir ?t, RemoveDir ?i, Callback (Some e) None]"
      and r: "reads (loadDestination env ?t ?i format
          \<lparr>r_soffice = Some bin, r_loadDestination = None\<rparr> s0) = reads s0 + 3" by blast
    show "filter is_retry_event (trace (convert env document format)) =
           attempt_events 200 (destination env ?t format) 3"
      and "reads (convert env document format) = 3"
      and "\<exists>e. callbacks (trace (convert env document format)) = [(Some e, None)]"
      unfolding eq e r using s0 by simp_all
  }
qed


theorem loadDestination_attempts_witness:
  "trace (loadDestination env_slow ''/tmp/libreofficeConvert_1'' ''/tmp/soffice_2'' ''.pdf''
            \<lparr>r_soffice = Some ''/usr/bin/soffice'', r_loadDestination = None\<rparr> state_exited) =
     [ReadFile ''/tmp/libreofficeConvert_1/source..pdf'', SetTimeout 200,
      ReadFile ''/tmp/libreofficeConvert_1/source..pdf'',
      RemoveDir ''/tmp/libreofficeConvert_1'', RemoveDir ''/tmp/soffice_2'',
      Callback None (Some ''PDF-OK'')] \<and>
   (\<exists>e. trace (loadDestination env_never ''/tmp/libreofficeConvert_1'' ''/tmp/soffice_2'' ''.pdf''
            \<lparr>r_soffice = Some ''/usr/bin/soffice'', r_loadDestination = None\<rparr> state_exited) =
     [ReadFile ''/tmp/libreofficeConvert_1/source..pdf'', SetTimeout 200,
      ReadFile ''/tmp/libreofficeConvert_1/source..pdf'', SetTimeout 200,
      ReadFile ''/tmp/libreofficeConvert_1/source..pdf'',
      RemoveDir ''/tmp/libreofficeConvert_1'', RemoveDir ''/tmp/soffice_2'',
      Callback (Some e) None]) \<and>
   filter is_retry_event (trace (convert env_slow ''hello'' ''.pdf'')) =
     [ReadFile ''/tmp/libreofficeConvert_1/source..pdf'', SetTimeout 200,
      ReadFile ''/tmp/libreofficeConvert_1/source..pdf''] \<and>
   reads (convert env_slow ''hello'' ''.pdf'') = 2 \<and>
   callbacks (trace (convert env_slow ''hello'' ''.pdf'')) = [(None, Some ''PDF-OK'')] \<and>
   filter is_retry_event (trace (convert env_never ''hello'' ''.pdf'')) =
     [ReadFile ''/tmp/libreofficeConvert_1/source..pdf'', SetTimeout 200,
      ReadFile ''/tmp/libreofficeConvert_1/source..pdf'', SetTimeout 200,
      ReadFile ''/tmp/libreofficeConvert_1/source..pdf''] \<and>
   reads (convert env_never ''hello'' ''.pdf'') = 3"
proof -
  let ?T = "''/tmp/libreofficeConvert_1''" and ?I = "''/tmp/soffice_2''"
  let ?P = "''/tmp/libreofficeConvert_1/source..pdf''"
  let ?R = "\<lparr>r_soffice = Some ''/usr/bin/soffice'', r_loadDestination = None\<rparr>"
  have d: "destination env_slow ?T ''.pdf'' = ?P" "destination env_never ?T ''.pdf'' = ?P"
    by code_simp+
  have n: "tempDir_name env_slow = ?T" "installDir_name env_slow = ?I"
    "tempDir_name env_never = ?T" "installDir_name env_never = ?I"
    by (simp_all add: env_slow_def env_never_def env_linux_def)
  have st: "\<not> finished state_exited" "reads state_exited = 0" "trace state_exited = []"
    "files state_exited ?P = Some ''PDF-OK''"
    by (simp_all add: state_exited_def)
  have slow: "\<forall>j. 1 \<le> j \<and> j < 2 \<longrightarrow> readFile_err env_slow j \<noteq> None"
    "readFile_err env_slow 2 = None"
    by (simp_all add: env_slow_def)
  have never: "\<forall>j. 1 \<le> j \<and> j \<le> 3 \<longrightarrow> readFile_err env_never j \<noteq> None"
    by (simp add: env_never_def)
  have run_slow: "soffice env_slow = Inr ''/usr/bin/soffice'' \<and> writeFile_err env_slow = None \<and>
    fst (execFile env_slow ''/usr/bin/soffice''
          (args env_slow (tempDir_name env_slow) (installDir_name env_slow) ''.pdf'')
          ((disk env_slow)(path_join env_slow (tempDir_name env_slow) ''source'' \<mapsto> ''hello''))) = None"
    "snd (execFile env_slow ''/usr/bin/soffice''
          (args env_slow (tempDir_name env_slow) (installDir_name env_slow) ''.pdf'')
          ((disk env_slow)(path_join env_slow (tempDir_name env_slow) ''source'' \<mapsto> ''hello'')))
       (destination env_slow (tempDir_name env_slow) ''.pdf'') = Some ''PDF-OK''"
    by code_simp+
  have run_never: "soffice env_never = Inr ''/usr/bin/soffice'' \<and> writeFile_err env_never = None \<and>
    fst (execFile env_never ''/usr/bin/soffice''
          (args env_never (tempDir_name env_never) (installDir_name env_never) ''.pdf'')
          ((disk env_never)(path_join env_never (tempDir_name env_never) ''source'' \<mapsto> ''hello''))) = None"
    by code_simp
  note a = loadDestination_attempts [where s = state_exited and k = 2 and env = env_slow
      and t = ?T and f = "''.pdf''" and b = "''PDF-OK''" and i = ?I and res = ?R
      and document = "''hello''" and format = "''.pdf''" and bin = "''/usr/bin/soffice''"]
  note b = loadDestination_attempts [where s = state_exited and k = 0 and env = env_never
      and t = ?T and f = "''.pdf''" and b = "[]" and i = ?I and res = ?R
      and document = "''hello''" and format = "''.pdf''" and bin = "''/usr/bin/soffice''"]
  have h1: "\<not> finished state_exited \<and> 1 \<le> (2::nat) \<and> (2::nat) \<le> 3 \<and>
      files state_exited (destination env_slow ?T ''.pdf'') = Some ''PDF-OK'' \<and>
      (\<forall>j. 1 \<le> j \<and> j < 2 \<longrightarrow> readFile_err env_slow (reads state_exited + j) \<noteq> None) \<and>
      readFile_err env_slow (reads state_exited + 2) = None"
    using d by (simp add: state_exited_def env_slow_def)
  have h2: "\<not> finished state_exited \<and>
      (files state_exited (destination env_never ?T ''.pdf'') = None \<or>
       (\<forall>j. 1 \<le> j \<and> j \<le> 3 \<longrightarrow> readFile_err env_never (reads state_exited + j) \<noteq> None))"
    by (simp add: state_exited_def env_never_def)
  have h3: "1 \<le> (2::nat) \<and> (2::nat) \<le> 3 \<and>
      snd (execFile env_slow ''/usr/bin/soffice''
          (args env_slow (tempDir_name env_slow) (installDir_name env_slow) ''.pdf'')
          ((disk env_slow)(path_join env_slow (tempDir_name env_slow) ''source'' \<mapsto> ''hello'')))
       (destination env_slow (tempDir_name env_slow) ''.pdf'') = Some ''PDF-OK'' \<and>
      (\<forall>j. 1 \<le> j \<and> j < 2 \<longrightarrow> readFile_err env_slow j \<noteq> None) \<and> readFile_err env_slow 2 = None"
    using run_slow(2) slow by simp
  have h4: "snd (execFile env_never ''/usr/bin/soffice''
          (args env_never (tempDir_name env_never) (installDir_name env_never) ''.pdf'')
          ((disk env_never)(path_join env_never (tempDir_name env_never) ''source'' \<mapsto> ''hello'')))
       (destination env_never (tempDir_name env_never) ''.pdf'') = None \<or>
      (\<forall>j. 1 \<le> j \<and> j \<le> 3 \<longrightarrow> readFile_err env_never j \<noteq> None)"
    using never by simp
  note 1 = mp [OF a [THEN conjunct1] h1]
  note 2 = mp [OF b [THEN conjunct2, THEN conjunct1] h2]
  note 3 = mp [OF mp [OF a [THEN conjunct2, THEN conjunct2, THEN conjunct2] run_slow(1),
      THEN conjunct1] h3]
  note 4 = mp [OF mp [OF b [THEN conjunct2, THEN conjunct2, THEN conjunct2] run_never,
      THEN conjunct2] h4]
  from 1 2 3 4 show ?thesis
    by (simp only: n d st attempt_events_unfold append_Nil append_Cons add_0) blast
qed

section \<open>The candidate from the environment\<close>

text \<open>
  C4, as stated, fails: the value of \<^verbatim>\<open>OFFICE_PATH\<close> is not taken as it is. With
  \<^verbatim>\<open>/opt/libreoffice7.6/program/soffice\<close> the candidate is
  \<^verbatim>\<open>/usr/bin/libreoffice7.6/program/soffice\<close>, and the value itself is no
  candidate.
\<close>

theorem office_path_counterexample:
  "platform env_office = ''linux'' \<and>
   OFFICE_PATH env_office = Some ''/opt/libreoffice7.6/program/soffice'' \<and>
   candidates env_office =
     Inr [''/usr/bin/libreoffice7.6/program/soffice'', ''/usr/bin/libreoffice'',
          ''/usr/bin/soffice'', ''/snap/bin/libreoffice''] \<and>
   ''/opt/libreoffice7.6/program/soffice'' \<notin>
     set [''/usr/bin/libreoffice7.6/program/soffice'', ''/usr/bin/libreoffice'',
          ''/usr/bin/soffice'', ''/snap/bin/libreoffice'']"
  by code_simp

lemma replace_first_absent: "\<not> includes_str pat s \<Longrightarrow> replace_first pat rep s = s"
  by (induction s) auto

text \<open>
  C4, amended. On Linux the list has four candidates, of which only the first
  depends on \<^verbatim>\<open>OFFICE_PATH\<close>, read by the task when it runs: it is the value
  (or \<^verbatim>\<open>/opt/libreoffice\<close> when the variable is unset or empty) with its first
  \<^verbatim>\<open>opt\<close> replaced by \<^verbatim>\<open>usr/bin\<close>. So a non-empty value without \<^verbatim>\<open>opt\<close> is
  itself the first candidate, and without the variable the first candidate is
  \<^verbatim>\<open>/usr/bin/libreoffice\<close>.
\<close>

theorem office_path_candidate:
  assumes "platform env = ''linux''"
  shows "\<exists>c. candidates env =
           Inr [c, ''/usr/bin/libreoffice'', ''/usr/bin/soffice'', ''/snap/bin/libreoffice''] \<and>
         c = replace_first ''opt'' ''usr/bin'' (or_default (OFFICE_PATH env) ''/opt/libreoffice'') \<and>
         (\<forall>V. OFFICE_PATH env = Some V \<and> V \<noteq> [] \<and> \<not> includes_str ''opt'' V \<longrightarrow> c = V) \<and>
         (OFFICE_PATH env = None \<or> OFFICE_PATH env = Some [] \<longrightarrow> c = ''/usr/bin/libreoffice'')"
proof -
  let ?c = "replace_first ''opt'' ''usr/bin'' (or_default (OFFICE_PATH env) ''/opt/libreoffice'')"
  have 1: "candidates env =
      Inr [?c, ''/usr/bin/libreoffice'', ''/usr/bin/soffice'', ''/snap/bin/libreoffice'']"
    using assms by (simp add: candidates_def)
  have 2: "\<forall>V. OFFICE_PATH env = Some V \<and> V \<noteq> [] \<and> \<not> includes_str ''opt'' V \<longrightarrow> ?c = V"
    by (simp add: or_default_def replace_first_absent)
  have d: "replace_first ''opt'' ''usr/bin'' ''/opt/libreoffice'' = ''/usr/bin/libreoffice''"
    by code_simp
  have 3: "OFFICE_PATH env = None \<or> OFFICE_PATH env = Some [] \<longrightarrow> ?c = ''/usr/bin/libreoffice''"
    using d by (auto simp: or_default_def)
  from 1 2 3 show ?thesis by blast
qed

theorem office_path_candidate_witness:
  "platform env_custom = ''linux'' \<and>
   OFFICE_PATH env_custom = Some ''/usr/lib/libreoffice/program/soffice'' \<and>
   candidates env_custom =
     Inr [''/usr/lib/libreoffice/program/soffice'', ''/usr/bin/libreoffice'',
          ''/usr/bin/soffice'', ''/snap/bin/libreoffice'']"
proof -
  have p: "platform env_custom = ''linux''" by (simp add: env_custom_def env_linux_def)
  have v: "OFFICE_PATH env_custom = Some ''/usr/lib/libreoffice/program/soffice'' \<and>
      ''/usr/lib/libreoffice/program/soffice'' \<noteq> [] \<and>
      \<not> includes_str ''opt'' ''/usr/lib/libreoffice/program/soffice''"
    by code_simp
  from office_path_candidate [OF p] obtain c where
    c: "candidates env_custom =
         Inr [c, ''/usr/bin/libreoffice'', ''/usr/bin/soffice'', ''/snap/bin/libreoffice'']"
    and "\<forall>V. OFFICE_PATH env_custom = Some V \<and> V \<noteq> [] \<and> \<not> includes_str ''opt'' V \<longrightarrow> c = V"
    by blast
  with v have "c = ''/usr/lib/libreoffice/program/soffice''" by blast
  with p v c show ?thesis by simp
qed

section \<open>The arguments of the engine\<close>

text \<open>
  C8. The command is one string cut at every space, so a staging directory
  whose path holds a space is cut too: with the staging directory
  \<^verbatim>\<open>/tmp/my files/libreofficeConvert_1\<close> the engine is started with nine
  arguments, the output directory being \<^verbatim>\<open>/tmp/my\<close> and the input path being
  split in two.
\<close>

theorem args_split_at_spaces:
  "tempDir_name env_space = ''/tmp/my files/libreofficeConvert_1'' \<and>
   args env_space (tempDir_name env_space) (installDir_name env_space) ''.pdf'' =
     [''-env:UserInstallation=file:///tmp/soffice_2'', ''--headless'', ''--convert-to'', ''.pdf'',
      ''--outdir'', ''/tmp/my'', ''files/libreofficeConvert_1'',
      ''/tmp/my'', ''files/libreofficeConvert_1/source''] \<and>
   ExecFile ''/usr/bin/soffice''
     [''-env:UserInstallation=file:///tmp/soffice_2'', ''--headless'', ''--convert-to'', ''.pdf'',
      ''--outdir'', ''/tmp/my'', ''files/libreofficeConvert_1'',
      ''/tmp/my'', ''files/libreofficeConvert_1/source'']
     \<in> set (trace (convert env_space ''hello'' ''.pdf''))"
  by code_simp

text \<open>Away from spaces the argument list is the one the command spells out.\<close>

lemma split_chr_no_sep: "c \<notin> set a \<Longrightarrow> split_chr c a = [a]"
  by (induction a) auto

lemma split_chr_field: "c \<notin> set a \<Longrightarrow> split_chr c (a @ c # b) = a # split_chr c b"
  by (induction a) auto

lemma args_without_spaces:
  assumes "CHR '' '' \<notin> set installDir" "CHR '' '' \<notin> set format" "CHR '' '' \<notin> set tempDir"
    "CHR '' '' \<notin> set (path_join env tempDir ''source'')"
  shows "args env tempDir installDir format =
     [''-env:UserInstallation=file://'' @ installDir, ''--headless'', ''--convert-to'', format,
      ''--outdir'', tempDir, path_join env tempDir ''source'']"
proof -
  let ?sp = "CHR '' ''"
  have cmd: "command env tempDir installDir format =
      (''-env:UserInstallation=file://'' @ installDir) @ ?sp #
      (''--headless'' @ ?sp # (''--convert-to'' @ ?sp # (format @ ?sp #
      (''--outdir'' @ ?sp # (tempDir @ ?sp # path_join env tempDir ''source'')))))"
    by (simp add: command_def)
  have 1: "?sp \<notin> set (''-env:UserInstallation=file://'' @ installDir)" using assms(1) by simp
  have 2: "?sp \<notin> set ''--headless''" "?sp \<notin> set ''--convert-to''" "?sp \<notin> set ''--outdir''"
    by simp_all
  show ?thesis
    unfolding args_def cmd
    by (simp only: split_chr_field [OF 1] split_chr_field [OF 2(1)] split_chr_field [OF 2(2)]
        split_chr_field [OF 2(3)] split_chr_field [OF assms(2)] split_chr_field [OF assms(3)]
        split_chr_no_sep [OF assms(4)])
qed

section \<open>The allow-list of the chat glue\<close>

text \<open>
  C9, as stated, fails: an attachment whose extension is in the allow-list is
  not converted when the message is the bot's own.
\<close>

theorem allow_list_counterexample:
  "extension ''a.docx'' \<in> set (split_chr (CHR '','') (SETTINGS_FORMATS bot_example)) \<and>
   attachments message_own = [\<lparr>name = ''a.docx'', url = ''https://cdn.example/a.docx''\<rparr>] \<and>
   messageCreate bot_example message_own = Ignored \<and>
   legacy_message bot_example message_own = Ignored"
  by code_simp

lemma conversions_attachment:
  "conversions (handle_attachment b a) =
     (if url a \<noteq> [] \<and> extension (name a) \<in> set (split_chr (CHR '','') (SETTINGS_FORMATS b)) \<and>
         (\<exists>d. fetch b (url a) = Inr d) then 1 else 0)"
  by (auto simp: handle_attachment_def Let_def split: sum.splits option.splits prod.splits)

lemma conversions_legacy:
  "conversions (legacy_attachment b a) =
     (if url a \<noteq> [] \<and> extension (name a) \<in> set (split_chr (CHR '','') (SETTINGS_FORMATS b)) \<and>
         (\<exists>d. fetch b (url a) = Inr d) then 1 else 0)"
  by (auto simp: legacy_attachment_def Let_def
      split: sum.splits option.splits prod.splits error.splits)

text \<open>
  C9, amended. For a message that is not the bot's own and that the debug
  command does not answer, each attachment is handled on its own: when its
  extension (what follows the last dot of its name) is not in the
  comma-separated allow-list, nothing is done for it, neither download nor
  conversion; when its URL is not empty and the download succeeds,
  \<^verbatim>\<open>convert\<close> is called once if the extension is in the list and not at all
  otherwise. This holds for both handlers.
\<close>

theorem allow_list_gate:
  assumes "Some (author_id msg) \<noteq> client_user_id b"
    and "n < length (attachments msg)"
    and "a = attachments msg ! n"
  shows "(\<not> debug_reply msg \<longrightarrow>
           (\<exists>acts. messageCreate b msg = Handled acts \<and> length acts = length (attachments msg) \<and>
              (extension (name a) \<notin> set (split_chr (CHR '','') (SETTINGS_FORMATS b)) \<longrightarrow>
                 acts ! n = []) \<and>
              (url a \<noteq> [] \<and> fetch b (url a) = Inr fileData \<longrightarrow>
                 conversions (acts ! n) =
                   (if extension (name a) \<in> set (split_chr (CHR '','') (SETTINGS_FORMATS b))
                    then 1 else 0)))) \<and>
         (\<not> legacy_debug_reply msg \<longrightarrow>
           (\<exists>acts. legacy_message b msg = Handled acts \<and> length acts = length (attachments msg) \<and>
              (extension (name a) \<notin> set (split_chr (CHR '','') (SETTINGS_FORMATS b)) \<longrightarrow>
                 acts ! n = []) \<and>
              (url a \<noteq> [] \<and> fetch b (url a) = Inr fileData \<longrightarrow>
                 conversions (acts ! n) =
                   (if extension (name a) \<in> set (split_chr (CHR '','') (SETTINGS_FORMATS b))
                    then 1 else 0))))"
proof (rule conjI; rule impI)
  assume d: "\<not> debug_reply msg"
  from assms(2) have ne: "attachments msg \<noteq> []" by auto
  let ?acts = "map (handle_attachment b) (attachments msg)"
  have m: "messageCreate b msg = Handled ?acts"
    using assms(1) d ne by (simp add: messageCreate_def)
  have nth: "?acts ! n = handle_attachment b a" using assms(2,3) by simp
  have 1: "extension (name a) \<notin> set (split_chr (CHR '','') (SETTINGS_FORMATS b)) \<longrightarrow> ?acts ! n = []"
    unfolding nth by (simp add: handle_attachment_def Let_def)
  have 2: "url a \<noteq> [] \<and> fetch b (url a) = Inr fileData \<longrightarrow>
      conversions (?acts ! n) =
        (if extension (name a) \<in> set (split_chr (CHR '','') (SETTINGS_FORMATS b)) then 1 else 0)"
    unfolding nth by (simp add: conversions_attachment)
  from m 1 2 show "\<exists>acts. messageCreate b msg = Handled acts \<and> length acts = length (attachments msg) \<and>
      (extension (name a) \<notin> set (split_chr (CHR '','') (SETTINGS_FORMATS b)) \<longrightarrow> acts ! n = []) \<and>
      (url a \<noteq> [] \<and> fetch b (url a) = Inr fileData \<longrightarrow>
         conversions (acts ! n) =
           (if extension (name a) \<in> set (split_chr (CHR '','') (SETTINGS_FORMATS b)) then 1 else 0))"
    by (intro exI [of _ ?acts]) simp
next
  assume d: "\<not> legacy_debug_reply msg"
  let ?acts = "map (legacy_attachment b) (attachments msg)"
  have m: "legacy_message b msg = Handled ?acts"
    using assms(1) d by (simp add: legacy_message_def)
  have nth: "?acts ! n = legacy_attachment b a" using assms(2,3) by simp
  have 1: "extension (name a) \<notin> set (split_chr (CHR '','') (SETTINGS_FORMATS b)) \<longrightarrow> ?acts ! n = []"
    unfolding nth by (simp add: legacy_attachment_def Let_def)
  have 2: "url a \<noteq> [] \<and> fetch b (url a) = Inr fileData \<longrightarrow>
      conversions (?acts ! n) =
        (if extension (name a) \<in> set (split_chr (CHR '','') (SETTINGS_FORMATS b)) then 1 else 0)"
    unfolding nth by (simp add: conversions_legacy)
  from m 1 2 show "\<exists>acts. legacy_message b msg = Handled acts \<and> length acts = length (attachments msg) \<and>
      (extension (name a) \<notin> set (split_chr (CHR '','') (SETTINGS_FORMATS b)) \<longrightarrow> acts ! n = []) \<and>
      (url a \<noteq> [] \<and> fetch b (url a) = Inr fileData \<longrightarrow>
         conversions (acts ! n) =
           (if extension (name a) \<in> set (split_chr (CHR '','') (SETTINGS_FORMATS b)) then 1 else 0))"
    by (intro exI [of _ ?acts]) simp
qed

theorem allow_list_gate_witness:
  "Some (author_id message_user) \<noteq> client_user_id bot_example \<and>
   \<not> debug_reply message_user \<and> \<not> legacy_debug_reply message_user \<and>
   (\<exists>acts. messageCreate bot_example message_user = Handled acts \<and> length acts = 3 \<and>
      conversions (acts ! 0) = 1 \<and> acts ! 1 = []) \<and>
   (\<exists>acts. legacy_message bot_example message_user = Handled acts \<and> length acts = 3 \<and>
      conversions (acts ! 0) = 1 \<and> acts ! 1 = [])"
proof -
  let ?a0 = "\<lparr>name = ''a.docx'', url = ''https://cdn.example/a.docx''\<rparr>"
  let ?a1 = "\<lparr>name = ''b.txt'', url = ''https://cdn.example/b.txt''\<rparr>"
  have au: "Some (author_id message_user) \<noteq> client_user_id bot_example" by code_simp
  have d: "\<not> debug_reply message_user" "\<not> legacy_debug_reply message_user" by code_simp+
  have l: "length (attachments message_user) = 3" by code_simp
  have n0: "0 < length (attachments message_user)" "?a0 = attachments message_user ! 0"
    by (simp_all add: message_user_def)
  have n1: "1 < length (attachments message_user)" "?a1 = attachments message_user ! 1"
    by (simp_all add: message_user_def)
  have e0: "extension (name ?a0) \<in> set (split_chr (CHR '','') (SETTINGS_FORMATS bot_example))"
    "url ?a0 \<noteq> [] \<and> fetch bot_example (url ?a0) = Inr ''data''" by code_simp+
  have e1: "extension (name ?a1) \<notin> set (split_chr (CHR '','') (SETTINGS_FORMATS bot_example))"
    by code_simp
  note g0 = allow_list_gate [OF au n0, of "''data''"]
  note g1 = allow_list_gate [OF au n1, of "''data''"]
  from g0 g1 d e0 e1 l have
    "\<exists>acts. messageCreate bot_example message_user = Handled acts \<and> length acts = 3 \<and>
      conversions (acts ! 0) = 1 \<and> acts ! 1 = []"
    by (metis outcome.inject)
  moreover from g0 g1 d e0 e1 l have
    "\<exists>acts. legacy_message bot_example message_user = Handled acts \<and> length acts = 3 \<and>
      conversions (acts ! 0) = 1 \<and> acts ! 1 = []"
    by (metis outcome.inject)
  ultimately show ?thesis using au d by blast
qed

section \<open>Names without a dot\<close>

text \<open>
  C10, as stated, fails in its second half: for the name \<^verbatim>\<open>README\<close> the reply
  is named \<^verbatim>\<open>.pdf\<close>, not \<^verbatim>\<open>READM.pdf\<close>, since \<^verbatim>\<open>substring(0, -1)\<close> is empty.
\<close>

theorem dotless_name_counterexample:
  "CHR ''.'' \<notin> set ''README'' \<and>
   newName ''README'' = ''.pdf'' \<and>
   newName ''README'' \<noteq> butlast ''README'' @ ''.pdf'' \<and>
   handle_attachment bot_example \<lparr>name = ''README'', url = ''https://cdn.example/README''\<rparr> =
     [Fetch ''https://cdn.example/README'', Convert ''data'' ''.pdf'', Send_file ''.pdf'' (Some ''PDF'')] \<and>
   legacy_attachment bot_example \<lparr>name = ''README'', url = ''https://cdn.example/README''\<rparr> =
     [Fetch ''https://cdn.example/README'', Convert ''data'' ''.pdf'', Send_file ''.pdf'' (Some ''PDF'')]"
  by code_simp

lemma lastIndexOf_absent: "c \<notin> set s \<Longrightarrow> lastIndexOf c s = - 1"
  by (induction s) (auto simp: Let_def)

text \<open>
  C10, amended. For a name without a dot the extension is the whole name, so
  the allow-list is asked for the whole name: when it is not there nothing is
  done, and when it is there, the download succeeds and the conversion
  succeeds, the reply attachment is named exactly \<^verbatim>\<open>.pdf\<close>.
\<close>

theorem dotless_name:
  assumes "CHR ''.'' \<notin> set (name a)"
  shows "extension (name a) = name a \<and> newName (name a) = ''.pdf'' \<and>
         (name a \<notin> set (split_chr (CHR '','') (SETTINGS_FORMATS b)) \<longrightarrow>
            handle_attachment b a = [] \<and> legacy_attachment b a = []) \<and>
         (name a \<in> set (split_chr (CHR '','') (SETTINGS_FORMATS b)) \<and> url a \<noteq> [] \<and>
          fetch b (url a) = Inr fileData \<and> convert_answer b fileData ''.pdf'' = (None, Some pdf) \<longrightarrow>
            handle_attachment b a =
              [Fetch (url a), Convert fileData ''.pdf'', Send_file ''.pdf'' (Some pdf)] \<and>
            legacy_attachment b a =
              [Fetch (url a), Convert fileData ''.pdf'', Send_file ''.pdf'' (Some pdf)])"
proof -
  from assms have l: "lastIndexOf (CHR ''.'') (name a) = - 1" by (rule lastIndexOf_absent)
  have e: "extension (name a) = name a"
    by (simp add: extension_def l substring_from_def substring_def Let_def)
  have n: "newName (name a) = ''.pdf''"
    by (simp add: newName_def l substring_def Let_def)
  show ?thesis
    by (simp add: e n handle_attachment_def legacy_attachment_def Let_def)
qed

theorem dotless_name_witness:
  "CHR ''.'' \<notin> set ''README'' \<and> extension ''README'' = ''README'' \<and>
   ''README'' \<in> set (split_chr (CHR '','') (SETTINGS_FORMATS bot_example)) \<and>
   handle_attachment bot_example \<lparr>name = ''README'', url = ''https://cdn.example/README''\<rparr> =
     [Fetch ''https://cdn.example/README'', Convert ''data'' ''.pdf'', Send_file ''.pdf'' (Some ''PDF'')]"
proof -
  let ?a = "\<lparr>name = ''README'', url = ''https://cdn.example/README''\<rparr>"
  have h: "CHR ''.'' \<notin> set (name ?a)" by simp
  have i: "name ?a \<in> set (split_chr (CHR '','') (SETTINGS_FORMATS bot_example)) \<and> url ?a \<noteq> [] \<and>
      fetch bot_example (url ?a) = Inr ''data'' \<and>
      convert_answer bot_example ''data'' ''.pdf'' = (None, Some ''PDF'')"
    by code_simp
  from dotless_name [OF h, of bot_example "''data''" "''PDF''"] i show ?thesis by simp
qed

end
